theory Spec2Isabelle
  imports Main "HOL-Library.Sublist"
begin

section \<open>Python strings\<close>

text \<open>
  A Python \<open>str\<close> is a sequence of Unicode code points, so it is modelled as a list of
  natural numbers (the labels of the scraper contain code points above 255). \<open>lit\<close>
  turns an ASCII literal into such a string.
\<close>

type_synonym pystr = "nat list"

definition lit :: "string \<Rightarrow> pystr" where
  "lit s = map of_char s"

text \<open>\<open>s.startswith(p)\<close>, \<open>s.endswith(p)\<close> and \<open>sub in s\<close>.\<close>

definition startswith :: "pystr \<Rightarrow> pystr \<Rightarrow> bool" where
  "startswith s p = prefix p s"

definition endswith :: "pystr \<Rightarrow> pystr \<Rightarrow> bool" where
  "endswith s p = suffix p s"

definition str_in :: "pystr \<Rightarrow> pystr \<Rightarrow> bool" where
  "str_in sub s = sublist sub s"

text \<open>
  \<open>str.isspace\<close> of one code point: the white space of the Unicode character database
  (tab to carriage return, the four separators 28 to 31, space, NEL, no-break space and
  the space characters of the general punctuation block).
\<close>

definition isspace_cp :: "nat \<Rightarrow> bool" where
  "isspace_cp c =
     ((9 \<le> c \<and> c \<le> 13) \<or> (28 \<le> c \<and> c \<le> 32) \<or> c = 133 \<or> c = 160 \<or> c = 5760 \<or>
      (8192 \<le> c \<and> c \<le> 8202) \<or> c = 8232 \<or> c = 8233 \<or> c = 8239 \<or> c = 8287 \<or>
      c = 12288)"

text \<open>\<open>s.strip()\<close>: white space is removed at both ends.\<close>

definition strip :: "pystr \<Rightarrow> pystr" where
  "strip s = rev (dropWhile isspace_cp (rev (dropWhile isspace_cp s)))"

text \<open>\<open>s.replace(c, "")\<close> for a one-character string \<open>c\<close>.\<close>

definition remove_cp :: "nat \<Rightarrow> pystr \<Rightarrow> pystr" where
  "remove_cp c s = filter (\<lambda>x. x \<noteq> c) s"

text \<open>
  \<open>s.lower()\<close>. Only the ASCII letters are mapped; the case mapping of the other code
  points is left out. The scraper uses \<open>lower\<close> for one suffix test against \<open>.csv\<close>, and
  no code point above 127 has a lower-case form that contains one of these four
  characters, so that test is the same with or without the omitted part.
\<close>

definition lower_cp :: "nat \<Rightarrow> nat" where
  "lower_cp c = (if 65 \<le> c \<and> c \<le> 90 then c + 32 else c)"

definition lower :: "pystr \<Rightarrow> pystr" where
  "lower s = map lower_cp s"

subsection \<open>Digits\<close>

text \<open>
  The decimal digits (\<open>str.isdecimal\<close>) come in runs of ten, zero to nine; the list
  holds the code point of each zero (Unicode 14.0, the database of CPython 3.11).
  \<open>decimal_value\<close> is the value \<open>int\<close> gives to a code point, if any.
\<close>

definition decimal_zeros :: "nat list" where
  "decimal_zeros =
     [48, 1632, 1776, 1984, 2406, 2534, 2662, 2790, 2918, 3046, 3174, 3302, 3430, 3558,
      3664, 3792, 3872, 4160, 4240, 6112, 6160, 6470, 6608, 6784, 6800, 6992, 7088, 7232,
      7248, 42528, 43216, 43264, 43472, 43504, 43600, 44016, 65296, 66720, 68912, 69734,
      69872, 69942, 70096, 70384, 70736, 70864, 71248, 71360, 71472, 71904, 72016, 72784,
      73040, 73120, 92768, 92864, 93008, 120782, 120792, 120802, 120812, 120822, 123200,
      123632, 125264, 130032]"

definition decimal_value :: "nat \<Rightarrow> nat option" where
  "decimal_value c =
     (if 48 \<le> c \<and> c \<le> 57 then Some (c - 48)
      else case find (\<lambda>z. z \<le> c \<and> c < z + 10) decimal_zeros of
             None \<Rightarrow> None
           | Some z \<Rightarrow> Some (c - z))"

text \<open>
  The code points that \<open>str.isdigit\<close> accepts and \<open>str.isdecimal\<close> does not:
  superscripts, subscripts, circled and parenthesised digits and the like. \<open>int\<close>
  rejects them.
\<close>

definition digit_only_ranges :: "(nat \<times> nat) list" where
  "digit_only_ranges =
     [(178, 179), (185, 185), (4969, 4977), (6618, 6618), (8304, 8304), (8308, 8313),
      (8320, 8329), (9312, 9320), (9332, 9340), (9352, 9360), (9450, 9450), (9461, 9469),
      (9471, 9471), (10102, 10110), (10112, 10120), (10122, 10130), (68160, 68163),
      (69216, 69224), (69714, 69722), (127232, 127242)]"

definition isdigit_cp :: "nat \<Rightarrow> bool" where
  "isdigit_cp c =
     (decimal_value c \<noteq> None \<or> list_ex (\<lambda>(a, b). a \<le> c \<and> c \<le> b) digit_only_ranges)"

text \<open>\<open>s.isdigit()\<close>: at least one character, and every character a digit.\<close>

definition isdigit :: "pystr \<Rightarrow> bool" where
  "isdigit s = (s \<noteq> [] \<and> list_all isdigit_cp s)"

section \<open>Errors\<close>

text \<open>
  \<open>die\<close> prints a message and calls \<open>sys.exit(1)\<close>; each call site has a message of
  its own. The other errors are exceptions that nothing in the program catches.
\<close>

datatype message =
    Usage
  | NotHttpUrl
  | NotVolbyUrl
  | NotCsvName
  | DownloadFailed int
  | NoMunicipalitiesFound
  | NoPartyResultsFound

datatype error =
    Die message
  | ValueError
  | RequestException
  | OSError

text \<open>
  \<open>int(t)\<close> for a text without sign, underscore or surrounding white space (all that the
  \<open>isdigit\<close> guard of \<open>clean_number\<close> lets through): the decimal value when every
  character is a decimal digit, \<open>ValueError\<close> otherwise. The interpreter's optional
  limit on the number of digits is not modelled.
\<close>

fun parse_decimal :: "nat \<Rightarrow> pystr \<Rightarrow> nat option" where
  "parse_decimal acc [] = Some acc"
| "parse_decimal acc (c # cs) =
     (case decimal_value c of
        None \<Rightarrow> None
      | Some d \<Rightarrow> parse_decimal (10 * acc + d) cs)"

definition int_of_str :: "pystr \<Rightarrow> error + int" where
  "int_of_str t =
     (case (if t = [] then None else parse_decimal 0 t) of
        None \<Rightarrow> Inl ValueError
      | Some n \<Rightarrow> Inr (int n))"

section \<open>Numeric normalization\<close>

text \<open>
  \<^verbatim>\<open>t = text.replace("\xa0", "").replace(" ", "").strip()\<close>,
  \<^verbatim>\<open>return int(t) if t.isdigit() else 0\<close>.
\<close>

definition clean_number :: "pystr \<Rightarrow> error + int" where
  "clean_number text =
     (let t = strip (remove_cp 32 (remove_cp 160 text))
      in if isdigit t then int_of_str t else Inr 0)"

section \<open>Pages\<close>

text \<open>
  The HTML parser is a library. A parsed page is modelled by what the scraper's queries
  return on it:
  \<^item> a row (\<open>tr\<close>) is the list of its \<open>td\<close> and \<open>th\<close> descendants in document order; a
    cell carries its tag, its classes, its text as \<open>get_text()\<close> returns it and its text
    as \<open>get_text(" ", strip=True)\<close> returns it;
  \<^item> an anchor of \<open>select("a[href]")\<close> carries its \<open>href\<close>, its text as
    \<open>get_text(strip=True)\<close> returns it, and the row \<open>find_parent("tr")\<close> finds, if any;
  \<^item> \<open>td_headers h\<close> is the \<open>get_text()\<close> of the cell that
    \<open>find("td", attrs={"headers": h})\<close> returns, if any;
  \<^item> \<open>table_rows\<close> is \<open>select("table tr")\<close>.
\<close>

datatype tag = TD | TH

record cell =
  cell_tag :: tag
  cell_classes :: "pystr list"
  get_text_raw :: pystr
  get_text_sep :: pystr

record anchor =
  href :: pystr
  a_text :: pystr
  parent_tr :: "cell list option"

record soup =
  anchors :: "anchor list"
  td_headers :: "pystr \<Rightarrow> pystr option"
  table_rows :: "cell list list"

text \<open>\<open>row.find_all("td")\<close>.\<close>

definition find_all_td :: "cell list \<Rightarrow> cell list" where
  "find_all_td row = filter (\<lambda>c. cell_tag c = TD) row"

text \<open>\<open>row.select_one("td.overflow_name")\<close>.\<close>

definition select_one_name :: "cell list \<Rightarrow> cell option" where
  "select_one_name row =
     find (\<lambda>c. cell_tag c = TD \<and> lit ''overflow_name'' \<in> set (cell_classes c)) row"

section \<open>Python dictionaries\<close>

text \<open>
  A \<open>dict\<close> keeps its keys in insertion order; assigning to a key that is present
  replaces the value and keeps the key's place. It is modelled as an association list
  without repeated keys.
\<close>

fun dict_set :: "('k \<times> 'v) list \<Rightarrow> 'k \<Rightarrow> 'v \<Rightarrow> ('k \<times> 'v) list" where
  "dict_set [] k v = [(k, v)]"
| "dict_set ((k', v') # d) k v =
     (if k' = k then (k, v) # d else (k', v') # dict_set d k v)"

definition dict_get :: "('k \<times> 'v) list \<Rightarrow> 'k \<Rightarrow> 'v \<Rightarrow> 'v" where
  "dict_get d k dflt = (case map_of d k of None \<Rightarrow> dflt | Some v \<Rightarrow> v)"

section \<open>The world outside the program\<close>

text \<open>
  The environment answers a request with a failure of the transport or with a status
  code and a parsed page, resolves a reference against a base URL (\<open>urljoin\<close>), and
  says whether a path can be opened for writing. The state holds the files written (the
  rows handed to the CSV writer) and the URLs requested so far.
\<close>

datatype cell_value = S pystr | I int

datatype response = ConnectionFailed | Response int soup

record env =
  urljoin :: "pystr \<Rightarrow> pystr \<Rightarrow> pystr"
  http_get :: "pystr \<Rightarrow> response"
  can_open :: "pystr \<Rightarrow> bool"

record state =
  files :: "pystr \<Rightarrow> cell_value list list option"
  requested :: "pystr list"

section \<open>Command line\<close>

definition parse_args :: "pystr list \<Rightarrow> error + (pystr \<times> pystr)" where
  "parse_args argv =
     (if length argv \<noteq> 3 then Inl (Die Usage)
      else
        let url = strip (argv ! 1);
            out_csv = strip (argv ! 2)
        in if \<not> (startswith url (lit ''http://'') \<or> startswith url (lit ''https://''))
           then Inl (Die NotHttpUrl)
           else if \<not> str_in (lit ''volby.cz'') url then Inl (Die NotVolbyUrl)
           else if \<not> endswith (lower out_csv) (lit ''.csv'') then Inl (Die NotCsvName)
           else Inr (url, out_csv))"

section \<open>Page Fetcher\<close>

definition fetch_soup :: "env \<Rightarrow> pystr \<Rightarrow> state \<Rightarrow> (error + soup) \<times> state" where
  "fetch_soup w url s =
     (let s' = s\<lparr>requested := requested s @ [url]\<rparr>
      in case http_get w url of
           ConnectionFailed \<Rightarrow> (Inl RequestException, s')
         | Response status_code page \<Rightarrow>
             if status_code \<noteq> 200 then (Inl (Die (DownloadFailed status_code)), s')
             else (Inr page, s'))"

section \<open>Municipality Locator\<close>

record municipality =
  muni_code :: pystr
  muni_name :: pystr
  muni_url :: pystr

text \<open>The first loop of \<open>find_municipalities\<close>: one entry for each link that passes.\<close>

fun municipality_entries :: "env \<Rightarrow> pystr \<Rightarrow> anchor list \<Rightarrow> municipality list" where
  "municipality_entries w base_url [] = []"
| "municipality_entries w base_url (a # as) =
     (if \<not> str_in (lit ''xobec='') (href a) then municipality_entries w base_url as
      else if \<not> isdigit (a_text a) then municipality_entries w base_url as
      else case parent_tr a of
             None \<Rightarrow> municipality_entries w base_url as
           | Some tr \<Rightarrow>
               let tds = find_all_td tr
               in if length tds < 2 then municipality_entries w base_url as
                  else \<lparr>muni_code = a_text a,
                        muni_name = get_text_sep (tds ! 1),
                        muni_url = urljoin w base_url (href a)\<rparr>
                       # municipality_entries w base_url as)"

text \<open>The second loop: \<^verbatim>\<open>unique[m["code"]] = m\<close> for each entry in turn.\<close>

definition unique_by_code :: "municipality list \<Rightarrow> (pystr \<times> municipality) list" where
  "unique_by_code ms = foldl (\<lambda>unique m. dict_set unique (muni_code m) m) [] ms"

definition find_municipalities :: "env \<Rightarrow> soup \<Rightarrow> pystr \<Rightarrow> error + municipality list" where
  "find_municipalities w district_soup base_url =
     (let municipalities = municipality_entries w base_url (anchors district_soup);
          result = map snd (unique_by_code municipalities)
      in if result = [] then Inl (Die NoMunicipalitiesFound) else Inr result)"

section \<open>Summary Extractor\<close>

text \<open>
  \<open>by_headers\<close>: the cell with the given \<open>headers\<close> attribute, normalized, or 0 when
  there is none.
\<close>

definition by_headers :: "soup \<Rightarrow> pystr \<Rightarrow> error + int" where
  "by_headers muni_soup h =
     (case td_headers muni_soup h of
        None \<Rightarrow> Inr 0
      | Some text \<Rightarrow> clean_number text)"

text \<open>
  The keys of the dictionary \<open>found\<close>, and the labels in the order of \<open>labels.items()\<close>:
  \<open>Voli\<close>(c with caron)\<open>i v seznamu\<close>, \<open>Vydan\<close>(e acute) \<open>ob\<close>(a acute)\<open>lky\<close>,
  \<open>Platn\<close>(e acute) \<open>hlasy\<close>.
\<close>

datatype key = Registered | Envelopes | Valid

definition label_registered :: pystr where
  "label_registered = lit ''Voli'' @ [269] @ lit ''i v seznamu''"

definition label_envelopes :: pystr where
  "label_envelopes = lit ''Vydan'' @ [233] @ lit '' ob'' @ [225] @ lit ''lky''"

definition label_valid :: pystr where
  "label_valid = lit ''Platn'' @ [233] @ lit '' hlasy''"

definition labels :: "(pystr \<times> key) list" where
  "labels =
     [(label_registered, Registered), (label_envelopes, Envelopes), (label_valid, Valid)]"

text \<open>
  The inner loop of the fallback, over the labels, for the cell texts of one row:
  \<^verbatim>\<open>if label in cells[0] and found[key] == 0: found[key] = clean_number(cells[1])\<close>.
\<close>

fun scan_labels ::
  "pystr list \<Rightarrow> (pystr \<times> key) list \<Rightarrow> (key \<Rightarrow> int) \<Rightarrow> error + (key \<Rightarrow> int)" where
  "scan_labels cells [] found = Inr found"
| "scan_labels cells ((label, k) # ls) found =
     (if str_in label (cells ! 0) \<and> found k = 0
      then (case clean_number (cells ! 1) of
              Inl e \<Rightarrow> Inl e
            | Inr n \<Rightarrow> scan_labels cells ls (found(k := n)))
      else scan_labels cells ls found)"

text \<open>The outer loop of the fallback, over \<open>select("table tr")\<close>.\<close>

fun scan_rows :: "cell list list \<Rightarrow> (key \<Rightarrow> int) \<Rightarrow> error + (key \<Rightarrow> int)" where
  "scan_rows [] found = Inr found"
| "scan_rows (row # rows) found =
     (let cells = map get_text_sep row
      in if length cells < 2 then scan_rows rows found
         else (case scan_labels cells labels found of
                 Inl e \<Rightarrow> Inl e
               | Inr found' \<Rightarrow> scan_rows rows found'))"

definition found_of :: "int \<Rightarrow> int \<Rightarrow> int \<Rightarrow> key \<Rightarrow> int" where
  "found_of registered envelopes valid k =
     (case k of Registered \<Rightarrow> registered | Envelopes \<Rightarrow> envelopes | Valid \<Rightarrow> valid)"

definition extract_summary_numbers :: "soup \<Rightarrow> error + (int \<times> int \<times> int)" where
  "extract_summary_numbers muni_soup =
     (case by_headers muni_soup (lit ''sa2'') of
        Inl e \<Rightarrow> Inl e
      | Inr registered \<Rightarrow>
     (case by_headers muni_soup (lit ''sa3'') of
        Inl e \<Rightarrow> Inl e
      | Inr envelopes \<Rightarrow>
     (case by_headers muni_soup (lit ''sa6'') of
        Inl e \<Rightarrow> Inl e
      | Inr valid \<Rightarrow>
          if \<not> (registered \<noteq> 0 \<and> envelopes \<noteq> 0 \<and> valid \<noteq> 0)
          then (case scan_rows (table_rows muni_soup) (found_of registered envelopes valid) of
                  Inl e \<Rightarrow> Inl e
                | Inr found \<Rightarrow> Inr (found Registered, found Envelopes, found Valid))
          else Inr (registered, envelopes, valid))))"

section \<open>Party Vote Extractor\<close>

text \<open>
  The loop over the rows, with the list \<open>party_order\<close> and the dictionary \<open>votes\<close> as
  they grow. The vote cell is normalized before the name is looked at, as in the source.
\<close>

fun party_rows ::
  "cell list list \<Rightarrow> pystr list \<Rightarrow> (pystr \<times> int) list \<Rightarrow>
   error + (pystr list \<times> (pystr \<times> int) list)" where
  "party_rows [] party_order votes = Inr (party_order, votes)"
| "party_rows (row # rows) party_order votes =
     (case select_one_name row of
        None \<Rightarrow> party_rows rows party_order votes
      | Some name_td \<Rightarrow>
          let party = get_text_sep name_td;
              tds = find_all_td row
          in if length tds < 3 then party_rows rows party_order votes
             else (case clean_number (get_text_raw (tds ! 2)) of
                     Inl e \<Rightarrow> Inl e
                   | Inr vote_val \<Rightarrow>
                       if party \<noteq> [] \<and> map_of votes party = None
                       then party_rows rows (party_order @ [party])
                              (dict_set votes party vote_val)
                       else party_rows rows party_order votes))"

definition extract_party_votes ::
  "soup \<Rightarrow> error + (pystr list \<times> (pystr \<times> int) list)" where
  "extract_party_votes muni_soup =
     (case party_rows (table_rows muni_soup) [] [] of
        Inl e \<Rightarrow> Inl e
      | Inr (party_order, votes) \<Rightarrow>
          if votes = [] then Inl (Die NoPartyResultsFound)
          else Inr (party_order, votes))"

section \<open>Record Assembler\<close>

record row =
  r_code :: pystr
  r_location :: pystr
  r_registered :: int
  r_envelopes :: int
  r_valid :: int
  r_party_order :: "pystr list"
  r_party_votes :: "(pystr \<times> int) list"

definition scrape_municipality :: "env \<Rightarrow> municipality \<Rightarrow> state \<Rightarrow> (error + row) \<times> state" where
  "scrape_municipality w m s =
     (case fetch_soup w (muni_url m) s of
        (Inl e, s') \<Rightarrow> (Inl e, s')
      | (Inr page, s') \<Rightarrow>
     (case extract_summary_numbers page of
        Inl e \<Rightarrow> (Inl e, s')
      | Inr (registered, envelopes, valid) \<Rightarrow>
     (case extract_party_votes page of
        Inl e \<Rightarrow> (Inl e, s')
      | Inr (party_order, party_votes) \<Rightarrow>
          (Inr \<lparr>r_code = muni_code m, r_location = muni_name m,
                r_registered = registered, r_envelopes = envelopes, r_valid = valid,
                r_party_order = party_order, r_party_votes = party_votes\<rparr>, s'))))"

text \<open>
  The loop of \<open>main\<close> over the municipalities, with \<open>rows\<close> and \<open>party_cols\<close> as they
  grow: \<^verbatim>\<open>if not party_cols: party_cols = data["_party_order"]\<close>.
\<close>

fun scrape_loop ::
  "env \<Rightarrow> municipality list \<Rightarrow> row list \<Rightarrow> pystr list \<Rightarrow> state \<Rightarrow>
   (error + (row list \<times> pystr list)) \<times> state" where
  "scrape_loop w [] rows party_cols s = (Inr (rows, party_cols), s)"
| "scrape_loop w (m # ms) rows party_cols s =
     (case scrape_municipality w m s of
        (Inl e, s') \<Rightarrow> (Inl e, s')
      | (Inr data, s') \<Rightarrow>
          scrape_loop w ms (rows @ [data])
            (if party_cols = [] then r_party_order data else party_cols) s')"

section \<open>Tabular Writer\<close>

definition fixed_columns :: "pystr list" where
  "fixed_columns =
     [lit ''code'', lit ''location'', lit ''registered'', lit ''envelopes'', lit ''valid'']"

text \<open>
  The dictionary \<open>out\<close> of one record: the five fixed keys, then
  \<^verbatim>\<open>out[p] = votes.get(p, 0)\<close> for each party column.
\<close>

definition out_fixed :: "row \<Rightarrow> (pystr \<times> cell_value) list" where
  "out_fixed r =
     [(lit ''code'', S (r_code r)), (lit ''location'', S (r_location r)),
      (lit ''registered'', I (r_registered r)), (lit ''envelopes'', I (r_envelopes r)),
      (lit ''valid'', I (r_valid r))]"

definition out_dict :: "row \<Rightarrow> pystr list \<Rightarrow> (pystr \<times> cell_value) list" where
  "out_dict r party_cols =
     foldl (\<lambda>out p. dict_set out p (I (dict_get (r_party_votes r) p 0))) (out_fixed r)
       party_cols"

text \<open>
  \<open>DictWriter.writerow\<close>: the value of each field name in turn (the empty string for a
  key that is missing); \<open>writeheader\<close> writes the field names themselves.
\<close>

definition dict_to_list :: "pystr list \<Rightarrow> (pystr \<times> cell_value) list \<Rightarrow> cell_value list" where
  "dict_to_list fieldnames rowdict = map (\<lambda>k. dict_get rowdict k (S [])) fieldnames"

text \<open>The row written for one record, and the rows of the whole file, header first.\<close>

definition data_row :: "pystr list \<Rightarrow> pystr list \<Rightarrow> row \<Rightarrow> cell_value list" where
  "data_row fieldnames party_cols r = dict_to_list fieldnames (out_dict r party_cols)"

definition csv_rows :: "row list \<Rightarrow> pystr list \<Rightarrow> cell_value list list" where
  "csv_rows rows party_cols =
     (let fieldnames = fixed_columns @ party_cols
      in map S fieldnames # map (data_row fieldnames party_cols) rows)"

definition write_csv ::
  "env \<Rightarrow> row list \<Rightarrow> pystr list \<Rightarrow> pystr \<Rightarrow> state \<Rightarrow> (error + unit) \<times> state" where
  "write_csv w rows party_cols out_csv s =
     (if \<not> can_open w out_csv then (Inl OSError, s)
      else (Inr (), s\<lparr>files := (files s)(out_csv \<mapsto> csv_rows rows party_cols)\<rparr>))"

section \<open>The program\<close>

definition main :: "env \<Rightarrow> pystr list \<Rightarrow> state \<Rightarrow> (error + unit) \<times> state" where
  "main w argv s =
     (case parse_args argv of
        Inl e \<Rightarrow> (Inl e, s)
      | Inr (url, out_csv) \<Rightarrow>
     (case fetch_soup w url s of
        (Inl e, s1) \<Rightarrow> (Inl e, s1)
      | (Inr district_soup, s1) \<Rightarrow>
     (case find_municipalities w district_soup url of
        Inl e \<Rightarrow> (Inl e, s1)
      | Inr municipalities \<Rightarrow>
     (case scrape_loop w municipalities [] [] s1 of
        (Inl e, s2) \<Rightarrow> (Inl e, s2)
      | (Inr (rows, party_cols), s2) \<Rightarrow> write_csv w rows party_cols out_csv s2))))"

text \<open>
  The exit status of the process: 0 when \<open>main\<close> returns, the code of \<open>sys.exit\<close> after
  \<open>die\<close>, and 1 when an exception reaches the top level.
\<close>

definition exit_status :: "error + unit \<Rightarrow> int" where
  "exit_status r =
     (case r of
        Inr _ \<Rightarrow> 0
      | Inl (Die _) \<Rightarrow> 1
      | Inl _ \<Rightarrow> 1)"

section \<open>The text of the file\<close>

text \<open>
  What the CSV writer makes of the rows, in its default dialect: a number as its decimal
  digits; a text in double quotes, with each double quote doubled, when it contains a
  comma, a double quote, a carriage return or a line feed; the fields joined by commas
  and the line ended by carriage return and line feed.
\<close>

fun digits_of :: "nat \<Rightarrow> pystr" where
  "digits_of n = (if n < 10 then [48 + n] else digits_of (n div 10) @ [48 + n mod 10])"

declare digits_of.simps [simp del]

definition str_of_int :: "int \<Rightarrow> pystr" where
  "str_of_int i = (if i < 0 then 45 # digits_of (nat (- i)) else digits_of (nat i))"

definition csv_quote :: "pystr \<Rightarrow> pystr" where
  "csv_quote t =
     (if list_ex (\<lambda>c. c = 44 \<or> c = 34 \<or> c = 13 \<or> c = 10) t
      then [34] @ concat (map (\<lambda>c. if c = 34 then [34, 34] else [c]) t) @ [34]
      else t)"

definition csv_field :: "cell_value \<Rightarrow> pystr" where
  "csv_field v = (case v of S t \<Rightarrow> csv_quote t | I i \<Rightarrow> str_of_int i)"

fun join_fields :: "pystr list \<Rightarrow> pystr" where
  "join_fields [] = []"
| "join_fields [f] = f"
| "join_fields (f # fs) = f @ [44] @ join_fields fs"

definition csv_line :: "cell_value list \<Rightarrow> pystr" where
  "csv_line vs =
     (if vs = [S []] then [34, 34] else join_fields (map csv_field vs))"

section \<open>A district with two municipalities\<close>

text \<open>
  The municipalities 500054 Alfa and 500062 Beta; each page has registered 100,
  envelopes 80, valid 75, and the parties Strana X with 40 votes and Strana Y with 35.
\<close>

definition plain_td :: "pystr \<Rightarrow> cell" where
  "plain_td t = \<lparr>cell_tag = TD, cell_classes = [], get_text_raw = t, get_text_sep = t\<rparr>"

definition party_td :: "pystr \<Rightarrow> cell" where
  "party_td t =
     \<lparr>cell_tag = TD, cell_classes = [lit ''overflow_name''], get_text_raw = t,
      get_text_sep = t\<rparr>"

definition district_url :: pystr where
  "district_url = lit ''https://www.volby.cz/pls/ps2017nss/ps32?xkraj=2&xnumnuts=2101''"

definition demo_link :: "pystr \<Rightarrow> pystr \<Rightarrow> anchor" where
  "demo_link c n =
     \<lparr>href = lit ''ps311?xobec='' @ c, a_text = c,
      parent_tr = Some [plain_td c, plain_td n]\<rparr>"

definition demo_district :: soup where
  "demo_district =
     \<lparr>anchors = [demo_link (lit ''500054'') (lit ''Alfa''),
                 demo_link (lit ''500062'') (lit ''Beta'')],
      td_headers = (\<lambda>h. None),
      table_rows = [[plain_td (lit ''500054''), plain_td (lit ''Alfa'')],
                    [plain_td (lit ''500062''), plain_td (lit ''Beta'')]]\<rparr>"

definition demo_municipality :: soup where
  "demo_municipality =
     \<lparr>anchors = [],
      td_headers = [lit ''sa2'' \<mapsto> lit ''100'', lit ''sa3'' \<mapsto> lit ''80'',
                    lit ''sa6'' \<mapsto> lit ''75''],
      table_rows = [[plain_td (lit ''1''), party_td (lit ''Strana X''), plain_td (lit ''40'')],
                    [plain_td (lit ''2''), party_td (lit ''Strana Y''), plain_td (lit ''35'')]]\<rparr>"

definition demo_env :: env where
  "demo_env =
     \<lparr>urljoin = (\<lambda>base ref. lit ''https://www.volby.cz/pls/ps2017nss/'' @ ref),
      http_get = (\<lambda>url. if url = district_url then Response 200 demo_district
                         else Response 200 demo_municipality),
      can_open = (\<lambda>path. True)\<rparr>"

definition demo_argv :: "pystr list" where
  "demo_argv = [lit ''main.py'', district_url, lit ''out.csv'']"

definition empty_state :: state where
  "empty_state = \<lparr>files = (\<lambda>path. None), requested = []\<rparr>"

section \<open>The Municipality Locator in the words of the specification\<close>

text \<open>
  What one link contributes: the link is retained when its reference contains the
  parameter \<open>xobec=\<close> and its text is numeric; a retained link gives an entry when its
  enclosing row has at least two \<open>td\<close> cells (the name is the text of the second, the
  URL is the reference resolved against the base URL), and nothing otherwise.
\<close>

definition locate :: "env \<Rightarrow> pystr \<Rightarrow> anchor \<Rightarrow> municipality option" where
  "locate w base_url a =
     (if str_in (lit ''xobec='') (href a) \<and> isdigit (a_text a)
      then (case parent_tr a of
              None \<Rightarrow> None
            | Some tr \<Rightarrow>
                if 2 \<le> length (find_all_td tr)
                then Some \<lparr>muni_code = a_text a,
                           muni_name = get_text_sep (find_all_td tr ! 1),
                           muni_url = urljoin w base_url (href a)\<rparr>
                else None)
      else None)"

text \<open>
  Deduplication as the specification words it: the distinct identifiers in the order
  of their first appearance, each with the last entry that carries it.
\<close>

fun first_seen :: "'a list \<Rightarrow> 'a list" where
  "first_seen [] = []"
| "first_seen (x # xs) = x # filter (\<lambda>y. y \<noteq> x) (first_seen xs)"

definition last_with_code :: "municipality list \<Rightarrow> pystr \<Rightarrow> municipality" where
  "last_with_code ms c = last (filter (\<lambda>m. muni_code m = c) ms)"

definition deduplicated :: "municipality list \<Rightarrow> municipality list" where
  "deduplicated ms = map (last_with_code ms) (first_seen (map muni_code ms))"

text \<open>
  A district page on which the identifier 500054 appears twice: the third link has
  another reference and stands in a row with another name.
\<close>

definition dup_district :: soup where
  "dup_district =
     \<lparr>anchors = [demo_link (lit ''500054'') (lit ''Alfa''),
                 demo_link (lit ''500062'') (lit ''Beta''),
                 \<lparr>href = lit ''ps311?xobec=500054&xvyber=2'', a_text = lit ''500054'',
                  parent_tr = Some [plain_td (lit ''500054''), plain_td (lit ''Alfa bis'')]\<rparr>],
      td_headers = (\<lambda>h. None),
      table_rows = []\<rparr>"

section \<open>The fields of the summary\<close>

text \<open>
  For each of the three fields: the \<open>headers\<close> key of its cell, its label, and its
  place in the result.
\<close>

definition header_of :: "key \<Rightarrow> pystr" where
  "header_of k =
     (case k of Registered \<Rightarrow> lit ''sa2'' | Envelopes \<Rightarrow> lit ''sa3'' | Valid \<Rightarrow> lit ''sa6'')"

definition label_of :: "key \<Rightarrow> pystr" where
  "label_of k =
     (case k of
        Registered \<Rightarrow> label_registered
      | Envelopes \<Rightarrow> label_envelopes
      | Valid \<Rightarrow> label_valid)"

definition field_of :: "key \<Rightarrow> int \<times> int \<times> int \<Rightarrow> int" where
  "field_of k t =
     (case t of (registered, envelopes, valid) \<Rightarrow>
        (case k of Registered \<Rightarrow> registered | Envelopes \<Rightarrow> envelopes | Valid \<Rightarrow> valid))"

text \<open>
  Three municipality pages: one without the three marked cells and with the row
  (label of the registered voters, \<open>1 234\<close>); the same with a marked cell that reads
  \<open>0\<close>; and one whose marked cell reads superscript two.
\<close>

definition label_td :: "tag \<Rightarrow> pystr \<Rightarrow> cell" where
  "label_td g t = \<lparr>cell_tag = g, cell_classes = [], get_text_raw = t, get_text_sep = t\<rparr>"

definition fallback_page :: soup where
  "fallback_page =
     \<lparr>anchors = [],
      td_headers = (\<lambda>h. None),
      table_rows = [[label_td TH label_registered, label_td TD (lit ''1 234'')]]\<rparr>"

definition zero_page :: soup where
  "zero_page =
     \<lparr>anchors = [],
      td_headers = [lit ''sa2'' \<mapsto> lit ''0''],
      table_rows = [[label_td TH label_registered, label_td TD (lit ''1 234'')]]\<rparr>"

definition superscript_page :: soup where
  "superscript_page =
     \<lparr>anchors = [],
      td_headers = [lit ''sa2'' \<mapsto> [178]],
      table_rows = []\<rparr>"

section \<open>The Party Vote Extractor in the words of the specification\<close>

text \<open>
  A party row, as the claim words it, is a row with a cell that carries the marker. The
  rows that count for the result are fewer: the row must also have at least three \<open>td\<close>
  cells and the text of the marked cell must not be empty.
\<close>

definition marker_rows :: "soup \<Rightarrow> cell list list" where
  "marker_rows page = filter (\<lambda>row. select_one_name row \<noteq> None) (table_rows page)"

definition counted :: "cell list \<Rightarrow> bool" where
  "counted row =
     (case select_one_name row of
        None \<Rightarrow> False
      | Some c \<Rightarrow> 3 \<le> length (find_all_td row) \<and> get_text_sep c \<noteq> [])"

definition name_of :: "cell list \<Rightarrow> pystr" where
  "name_of row = (case select_one_name row of None \<Rightarrow> [] | Some c \<Rightarrow> get_text_sep c)"

definition vote_of :: "cell list \<Rightarrow> int" where
  "vote_of row =
     (case clean_number (get_text_raw (find_all_td row ! 2)) of Inl e \<Rightarrow> 0 | Inr n \<Rightarrow> n)"

text \<open>The third cell of a row with the marker and three cells is normalized without error.\<close>

definition vote_cell_ok :: "cell list \<Rightarrow> bool" where
  "vote_cell_ok row =
     (case select_one_name row of
        None \<Rightarrow> True
      | Some c \<Rightarrow>
          if length (find_all_td row) < 3 then True
          else (case clean_number (get_text_raw (find_all_td row ! 2)) of
                  Inl e \<Rightarrow> False
                | Inr n \<Rightarrow> True))"

text \<open>
  The result in the words of the specification: the names of the rows that count, in
  the order of their first appearance, each with the votes of its first row.
\<close>

definition first_vote :: "cell list list \<Rightarrow> pystr \<Rightarrow> int" where
  "first_vote rows p = vote_of (hd (filter (\<lambda>r. counted r \<and> name_of r = p) rows))"

definition party_names :: "cell list list \<Rightarrow> pystr list" where
  "party_names rows = first_seen (map name_of (filter counted rows))"

definition party_tally :: "cell list list \<Rightarrow> (pystr \<times> int) list" where
  "party_tally rows = map (\<lambda>p. (p, first_vote rows p)) (party_names rows)"

text \<open>A page whose only row has the marked cell and one more cell.\<close>

definition two_cell_page :: soup where
  "two_cell_page =
     \<lparr>anchors = [],
      td_headers = (\<lambda>h. None),
      table_rows = [[party_td (lit ''Strana X''), plain_td (lit ''40'')]]\<rparr>"

section \<open>The command line in the words of the claim\<close>

text \<open>
  A path ends with \<open>.csv\<close>, whatever the case of the letters: its last four characters
  are a full stop, \<open>c\<close> or \<open>C\<close>, \<open>s\<close> or \<open>S\<close>, \<open>v\<close> or \<open>V\<close>.
\<close>

definition ends_with_csv :: "pystr \<Rightarrow> bool" where
  "ends_with_csv s =
     (4 \<le> length s \<and>
      (let t = drop (length s - 4) s
       in t ! 0 = 46 \<and> (t ! 1 = 99 \<or> t ! 1 = 67) \<and> (t ! 2 = 115 \<or> t ! 2 = 83) \<and>
          (t ! 3 = 118 \<or> t ! 3 = 86)))"

text \<open>
  The argument lists that are accepted: the program name and two arguments; with the
  white space at both ends of each argument removed, the URL starts with \<open>http://\<close> or
  \<open>https://\<close> and contains \<open>volby.cz\<close> somewhere, and the path ends with \<open>.csv\<close>.
\<close>

definition accepted :: "pystr list \<Rightarrow> bool" where
  "accepted argv =
     (length argv = 3 \<and>
      (startswith (strip (argv ! 1)) (lit ''http://'') \<or>
       startswith (strip (argv ! 1)) (lit ''https://'')) \<and>
      str_in (lit ''volby.cz'') (strip (argv ! 1)) \<and>
      ends_with_csv (strip (argv ! 2)))"

text \<open>An argument list whose URL has another scheme.\<close>

definition ftp_argv :: "pystr list" where
  "ftp_argv = [lit ''main.py'', lit ''ftp://www.volby.cz/ps32'', lit ''out.csv'']"

text \<open>An argument list with white space around the arguments and an upper-case suffix.\<close>

definition padded_argv :: "pystr list" where
  "padded_argv = [lit ''main.py'', lit '' http://example.org/volby.cz '', lit ''Out.CSV  '']"

section \<open>More districts\<close>

text \<open>
  A district whose second municipality has other parties than the first: Strana Y with
  35 votes and Strana Z with 7.
\<close>

definition other_municipality :: soup where
  "other_municipality =
     \<lparr>anchors = [],
      td_headers = [lit ''sa2'' \<mapsto> lit ''100'', lit ''sa3'' \<mapsto> lit ''80'',
                    lit ''sa6'' \<mapsto> lit ''75''],
      table_rows = [[plain_td (lit ''1''), party_td (lit ''Strana Y''), plain_td (lit ''35'')],
                    [plain_td (lit ''2''), party_td (lit ''Strana Z''), plain_td (lit ''7'')]]\<rparr>"

definition beta_url :: pystr where
  "beta_url = lit ''https://www.volby.cz/pls/ps2017nss/ps311?xobec=500062''"

definition mixed_env :: env where
  "mixed_env =
     \<lparr>urljoin = (\<lambda>base ref. lit ''https://www.volby.cz/pls/ps2017nss/'' @ ref),
      http_get = (\<lambda>url. if url = district_url then Response 200 demo_district
                         else if url = beta_url then Response 200 other_municipality
                         else Response 200 demo_municipality),
      can_open = (\<lambda>path. True)\<rparr>"

text \<open>A page without links, served for every URL.\<close>

definition bare_page :: soup where
  "bare_page = \<lparr>anchors = [], td_headers = (\<lambda>h. None), table_rows = []\<rparr>"

definition bare_env :: env where
  "bare_env =
     \<lparr>urljoin = (\<lambda>base ref. base @ ref),
      http_get = (\<lambda>url. Response 200 bare_page),
      can_open = (\<lambda>path. True)\<rparr>"

text \<open>The record of a municipality, whatever the state: the state only logs the requests.\<close>

definition scraped :: "env \<Rightarrow> municipality \<Rightarrow> row \<Rightarrow> bool" where
  "scraped w m r = (fst (scrape_municipality w m \<lparr>files = (\<lambda>path. None), requested = []\<rparr>) = Inr r)"

text \<open>The two municipalities of the district, and the record scraped for each.\<close>

definition alfa_url :: pystr where
  "alfa_url = lit ''https://www.volby.cz/pls/ps2017nss/ps311?xobec=500054''"

definition alfa :: municipality where
  "alfa = \<lparr>muni_code = lit ''500054'', muni_name = lit ''Alfa'', muni_url = alfa_url\<rparr>"

definition beta :: municipality where
  "beta = \<lparr>muni_code = lit ''500062'', muni_name = lit ''Beta'', muni_url = beta_url\<rparr>"

definition demo_row :: "municipality \<Rightarrow> (pystr \<times> int) list \<Rightarrow> row" where
  "demo_row m votes =
     \<lparr>r_code = muni_code m, r_location = muni_name m, r_registered = 100,
      r_envelopes = 80, r_valid = 75, r_party_order = map fst votes,
      r_party_votes = votes\<rparr>"

definition votes_x_y :: "(pystr \<times> int) list" where
  "votes_x_y = [(lit ''Strana X'', 40), (lit ''Strana Y'', 35)]"

definition votes_y_z :: "(pystr \<times> int) list" where
  "votes_y_z = [(lit ''Strana Y'', 35), (lit ''Strana Z'', 7)]"

section \<open>Properties of the numeric normalization\<close>

lemmas number_defs = clean_number_def strip_def remove_cp_def isspace_cp_def isdigit_def
  isdigit_cp_def decimal_value_def decimal_zeros_def digit_only_ranges_def int_of_str_def
  lit_def

lemma remove_only_spaces:
  "set s \<subseteq> {32, 160} \<Longrightarrow> remove_cp 32 (remove_cp 160 s) = []"
  by (induction s) (auto simp: remove_cp_def)

text \<open>A text of spaces and no-break spaces only is normalized to zero.\<close>

lemma clean_number_spaces: "set s \<subseteq> {32, 160} \<Longrightarrow> clean_number s = Inr 0"
  by (simp add: remove_only_spaces clean_number_def strip_def isdigit_def)

lemma parse_decimal_ascii:
  "list_all (\<lambda>c. 48 \<le> c \<and> c \<le> 57) t \<Longrightarrow>
   parse_decimal acc t = Some (foldl (\<lambda>a c. 10 * a + (c - 48)) acc t)"
  by (induction t arbitrary: acc) (auto simp: decimal_value_def)

lemma strip_clean:
  assumes "list_all (\<lambda>c. 48 \<le> c \<and> c \<le> 57) t"
  shows "strip (remove_cp 32 (remove_cp 160 t)) = t"
proof -
  from assms have n: "\<forall>c\<in>set t. \<not> isspace_cp c \<and> c \<noteq> 32 \<and> c \<noteq> 160"
    by (auto simp: list_all_iff isspace_cp_def)
  then have kept: "remove_cp 32 (remove_cp 160 t) = t"
    by (simp add: remove_cp_def)
  have "strip t = t"
  proof (cases t)
    case Nil
    then show ?thesis by (simp add: strip_def)
  next
    case (Cons c cs)
    then have front: "dropWhile isspace_cp t = t"
      using n by simp
    have "\<not> isspace_cp (last t)"
      using n Cons by (metis last_in_set list.distinct(1))
    then have "dropWhile isspace_cp (rev t) = rev t"
      by (simp add: dropWhile_eq_self_iff hd_rev)
    with front show ?thesis by (simp add: strip_def)
  qed
  with kept show ?thesis by simp
qed

text \<open>A text of ASCII digits is normalized to its decimal value.\<close>

lemma clean_number_decimal:
  assumes "t \<noteq> []" and "list_all (\<lambda>c. 48 \<le> c \<and> c \<le> 57) t"
  shows "clean_number t = Inr (int (foldl (\<lambda>a c. 10 * a + (c - 48)) 0 t))"
proof -
  have "isdigit t"
    using assms by (auto simp: isdigit_def isdigit_cp_def decimal_value_def list_all_iff)
  then show ?thesis
    using assms by (simp add: clean_number_def strip_clean int_of_str_def parse_decimal_ascii)
qed

text \<open>What is left when the text is not made of digits is normalized to zero.\<close>

lemma clean_number_not_digit:
  "\<not> isdigit (strip (remove_cp 32 (remove_cp 160 s))) \<Longrightarrow> clean_number s = Inr 0"
  by (simp add: clean_number_def)

lemma clean_number_nonneg: "clean_number s = Inr n \<Longrightarrow> 0 \<le> n"
  by (auto simp: clean_number_def int_of_str_def Let_def split: if_splits option.splits)

lemma clean_number_100: "clean_number (lit ''100'') = Inr 100"
  by (simp add: number_defs)

lemma clean_number_80: "clean_number (lit ''80'') = Inr 80"
  by (simp add: number_defs)

lemma clean_number_75: "clean_number (lit ''75'') = Inr 75"
  by (simp add: number_defs)

lemma clean_number_40: "clean_number (lit ''40'') = Inr 40"
  by (simp add: number_defs)

lemma clean_number_35: "clean_number (lit ''35'') = Inr 35"
  by (simp add: number_defs)

lemma clean_number_1_234: "clean_number (lit ''1 234'') = Inr 1234"
  by (simp add: number_defs)

text \<open>
  Claim C4. The normalization is meant never to raise: the text is parsed only when
  \<open>isdigit\<close> accepts it. But \<open>isdigit\<close> accepts the superscript two (code point 178),
  which \<open>int\<close> rejects: on that text the normalization raises \<open>ValueError\<close>.
\<close>

theorem clean_number_superscript_raises:
  "isdigit [178] \<and> int_of_str [178] = Inl ValueError \<and> clean_number [178] = Inl ValueError"
  by (simp add: number_defs)

section \<open>Properties of the Municipality Locator\<close>


lemma set_first_seen [simp]: "set (first_seen xs) = set xs"
  by (induction xs) auto

lemma distinct_first_seen [simp]: "distinct (first_seen xs)"
  by (induction xs) auto

lemma first_seen_snoc:
  "first_seen (xs @ [x]) = (if x \<in> set xs then first_seen xs else first_seen xs @ [x])"
  by (induction xs) auto

lemma dict_set_map:
  "distinct ks \<Longrightarrow>
   dict_set (map (\<lambda>c. (c, f c)) ks) k v =
     (if k \<in> set ks then map (\<lambda>c. (c, (f(k := v)) c)) ks
      else map (\<lambda>c. (c, f c)) ks @ [(k, v)])"
  by (induction ks) auto

lemma last_with_code_snoc:
  "last_with_code (ms @ [m]) = (last_with_code ms)(muni_code m := m)"
  by (rule ext) (simp add: last_with_code_def)

lemma unique_by_code_eq:
  "unique_by_code ms =
     map (\<lambda>c. (c, last_with_code ms c)) (first_seen (map muni_code ms))"
proof (induction ms rule: rev_induct)
  case Nil
  then show ?case by (simp add: unique_by_code_def)
next
  case (snoc m ms)
  let ?k = "muni_code m"
  let ?ks = "first_seen (map muni_code ms)"
  have step: "unique_by_code (ms @ [m]) = dict_set (unique_by_code ms) ?k m"
    by (simp add: unique_by_code_def)
  show ?case
  proof (cases "?k \<in> set (map muni_code ms)")
    case True
    then have "unique_by_code (ms @ [m]) = map (\<lambda>c. (c, ((last_with_code ms)(?k := m)) c)) ?ks"
      unfolding step snoc by (subst dict_set_map) simp_all
    with True show ?thesis
      by (simp add: first_seen_snoc last_with_code_snoc)
  next
    case False
    then have appended:
      "unique_by_code (ms @ [m]) = map (\<lambda>c. (c, last_with_code ms c)) ?ks @ [(?k, m)]"
      unfolding step snoc by (subst dict_set_map) simp_all
    have other: "c \<noteq> ?k" if "c \<in> set ?ks" for c
      using that False by (metis set_first_seen)
    have unchanged:
      "map (\<lambda>c. (c, last_with_code (ms @ [m]) c)) ?ks =
       map (\<lambda>c. (c, last_with_code ms c)) ?ks"
      by (rule map_cong [OF refl]) (simp add: last_with_code_snoc other)
    have self: "last_with_code (ms @ [m]) ?k = m"
      by (simp add: last_with_code_snoc)
    have "first_seen (map muni_code (ms @ [m])) = ?ks @ [?k]"
      using False by (simp add: first_seen_snoc)
    then show ?thesis
      by (simp only: appended unchanged self map_append list.map)
  qed
qed

lemma map_snd_unique: "map snd (unique_by_code ms) = deduplicated ms"
  by (simp add: unique_by_code_eq deduplicated_def comp_def)

lemma length_deduplicated: "length (deduplicated ms) = card (set (map muni_code ms))"
proof -
  have "length (deduplicated ms) = length (first_seen (map muni_code ms))"
    by (simp add: deduplicated_def)
  also have "\<dots> = card (set (first_seen (map muni_code ms)))"
    using distinct_first_seen by (rule distinct_card [symmetric])
  also have "\<dots> = card (set (map muni_code ms))"
    by (simp only: set_first_seen)
  finally show ?thesis .
qed

lemma code_last_with_code:
  assumes "c \<in> set (map muni_code ms)"
  shows "muni_code (last_with_code ms c) = c"
proof -
  from assms have "filter (\<lambda>m. muni_code m = c) ms \<noteq> []"
    by (auto simp: filter_empty_conv)
  then have "last (filter (\<lambda>m. muni_code m = c) ms) \<in> set (filter (\<lambda>m. muni_code m = c) ms)"
    by (rule last_in_set)
  then show ?thesis by (simp add: last_with_code_def)
qed

lemma codes_deduplicated:
  "map muni_code (deduplicated ms) = first_seen (map muni_code ms)"
proof -
  have "map (\<lambda>c. muni_code (last_with_code ms c)) (first_seen (map muni_code ms)) =
        map (\<lambda>c. c) (first_seen (map muni_code ms))"
    by (intro map_cong refl code_last_with_code) simp
  then show ?thesis by (simp add: deduplicated_def comp_def)
qed

lemma deduplicated_Nil_iff: "deduplicated ms = [] \<longleftrightarrow> ms = []"
  by (cases ms) (simp_all add: deduplicated_def)


lemmas digit_defs = isdigit_def isdigit_cp_def decimal_value_def decimal_zeros_def
  digit_only_ranges_def

lemmas page_defs = demo_link_def plain_td_def party_td_def find_all_td_def select_one_name_def

lemma entries_dup:
  "municipality_entries demo_env district_url (anchors dup_district) =
     [\<lparr>muni_code = lit ''500054'', muni_name = lit ''Alfa'',
       muni_url = lit ''https://www.volby.cz/pls/ps2017nss/ps311?xobec=500054''\<rparr>,
      \<lparr>muni_code = lit ''500062'', muni_name = lit ''Beta'',
       muni_url = lit ''https://www.volby.cz/pls/ps2017nss/ps311?xobec=500062''\<rparr>,
      \<lparr>muni_code = lit ''500054'', muni_name = lit ''Alfa bis'',
       muni_url = lit ''https://www.volby.cz/pls/ps2017nss/ps311?xobec=500054&xvyber=2''\<rparr>]"
  by (simp add: dup_district_def demo_env_def page_defs digit_defs str_in_def lit_def sublist_Cons_right)


section \<open>Properties of the Summary Extractor\<close>

text \<open>
  The fallback never changes a field that is not zero: neither the loop over the labels
  nor the loop over the rows.
\<close>

lemma scan_labels_keeps:
  "scan_labels cells ls f = Inr f' \<Longrightarrow> f k \<noteq> 0 \<Longrightarrow> f' k = f k"
proof (induction ls arbitrary: f)
  case Nil
  then show ?case by simp
next
  case (Cons l ls)
  obtain label k0 where l: "l = (label, k0)" by (cases l)
  show ?case
  proof (cases "str_in label (cells ! 0) \<and> f k0 = 0")
    case True
    with Cons.prems l obtain n where
      n: "clean_number (cells ! 1) = Inr n" and
      rest: "scan_labels cells ls (f(k0 := n)) = Inr f'"
      by (auto split: sum.splits)
    from True Cons.prems have "k \<noteq> k0" by auto
    with Cons.IH [OF rest] Cons.prems show ?thesis by simp
  next
    case False
    with Cons.prems l have "scan_labels cells ls f = Inr f'" by auto
    with Cons.IH Cons.prems show ?thesis by blast
  qed
qed

lemma scan_rows_keeps:
  "scan_rows rows f = Inr f' \<Longrightarrow> f k \<noteq> 0 \<Longrightarrow> f' k = f k"
proof (induction rows arbitrary: f)
  case Nil
  then show ?case by simp
next
  case (Cons row rows)
  show ?case
  proof (cases "length row < 2")
    case True
    with Cons show ?thesis by simp
  next
    case False
    with Cons.prems obtain g where
      g: "scan_labels (map get_text_sep row) labels f = Inr g" and
      rest: "scan_rows rows g = Inr f'"
      by (auto simp: Let_def split: sum.splits)
    from scan_labels_keeps [OF g Cons.prems(2)] have "g k = f k" .
    with Cons.IH [OF rest] Cons.prems(2) show ?thesis by simp
  qed
qed

lemma label_in_labels: "(label_of k, k) \<in> set labels"
  by (cases k) (simp_all add: labels_def label_of_def)

lemma scan_labels_fills:
  assumes "scan_labels cells labels f = Inr f'"
    and "f k = 0" and "str_in (label_of k) (cells ! 0)"
    and "clean_number (cells ! 1) = Inr n"
  shows "f' k = n"
  using assms
  by (cases k) (auto simp: labels_def label_of_def split: if_splits)

text \<open>
  The fallback runs when one of the three primary values is zero, and only then.
\<close>

lemma extract_fallback:
  assumes "by_headers p (lit ''sa2'') = Inr r0" "by_headers p (lit ''sa3'') = Inr e0"
    "by_headers p (lit ''sa6'') = Inr v0" "r0 = 0 \<or> e0 = 0 \<or> v0 = 0"
  shows "extract_summary_numbers p =
    (case scan_rows (table_rows p) (found_of r0 e0 v0) of
       Inl e \<Rightarrow> Inl e
     | Inr found \<Rightarrow> Inr (found Registered, found Envelopes, found Valid))"
  using assms by (auto simp: extract_summary_numbers_def)

lemma extract_primary:
  assumes "by_headers p (lit ''sa2'') = Inr r0" "by_headers p (lit ''sa3'') = Inr e0"
    "by_headers p (lit ''sa6'') = Inr v0" "r0 \<noteq> 0" "e0 \<noteq> 0" "v0 \<noteq> 0"
  shows "extract_summary_numbers p = Inr (r0, e0, v0)"
  using assms by (simp add: extract_summary_numbers_def)


lemma extract_cases:
  assumes "extract_summary_numbers p = Inr t"
  obtains r0 e0 v0 where
    "by_headers p (lit ''sa2'') = Inr r0" "by_headers p (lit ''sa3'') = Inr e0"
    "by_headers p (lit ''sa6'') = Inr v0"
    "r0 \<noteq> 0 \<and> e0 \<noteq> 0 \<and> v0 \<noteq> 0 \<and> t = (r0, e0, v0) \<or>
     (\<exists>found. scan_rows (table_rows p) (found_of r0 e0 v0) = Inr found \<and>
        t = (found Registered, found Envelopes, found Valid))"
  using assms unfolding extract_summary_numbers_def
  by (auto split: sum.splits if_splits)

lemma found_of_header:
  assumes "by_headers p (lit ''sa2'') = Inr r0" "by_headers p (lit ''sa3'') = Inr e0"
    "by_headers p (lit ''sa6'') = Inr v0" "by_headers p (header_of k) = Inr n"
  shows "found_of r0 e0 v0 k = n"
  using assms by (cases k) (simp_all add: found_of_def header_of_def)

lemma field_of_found:
  "field_of k (found Registered, found Envelopes, found Valid) = found k"
  by (cases k) (simp_all add: field_of_def)

lemma field_of_primary: "field_of k (r0, e0, v0) = found_of r0 e0 v0 k"
  by (cases k) (simp_all add: field_of_def found_of_def)

lemma nonzero_kept:
  assumes "by_headers p (header_of k) = Inr n0" "n0 \<noteq> 0" "extract_summary_numbers p = Inr t"
  shows "field_of k t = n0"
proof -
  from assms(3) obtain r0 e0 v0 where
    h: "by_headers p (lit ''sa2'') = Inr r0" "by_headers p (lit ''sa3'') = Inr e0"
       "by_headers p (lit ''sa6'') = Inr v0" and
    c: "r0 \<noteq> 0 \<and> e0 \<noteq> 0 \<and> v0 \<noteq> 0 \<and> t = (r0, e0, v0) \<or>
     (\<exists>found. scan_rows (table_rows p) (found_of r0 e0 v0) = Inr found \<and>
        t = (found Registered, found Envelopes, found Valid))"
    by (rule extract_cases)
  have k: "found_of r0 e0 v0 k = n0"
    using h assms(1) by (rule found_of_header)
  from c show ?thesis
  proof
    assume "r0 \<noteq> 0 \<and> e0 \<noteq> 0 \<and> v0 \<noteq> 0 \<and> t = (r0, e0, v0)"
    with k show ?thesis by (simp add: field_of_primary)
  next
    assume "\<exists>found. scan_rows (table_rows p) (found_of r0 e0 v0) = Inr found \<and>
        t = (found Registered, found Envelopes, found Valid)"
    then obtain found where
      s: "scan_rows (table_rows p) (found_of r0 e0 v0) = Inr found" and
      t: "t = (found Registered, found Envelopes, found Valid)" by blast
    from scan_rows_keeps [OF s] k assms(2) have "found k = n0" by simp
    with t show ?thesis by (simp add: field_of_found)
  qed
qed

lemma zero_filled:
  assumes "by_headers p (header_of k) = Inr 0" "table_rows p = row # rest" "2 \<le> length row"
    "str_in (label_of k) (get_text_sep (row ! 0))"
    "clean_number (get_text_sep (row ! 1)) = Inr n" "n \<noteq> 0"
    "extract_summary_numbers p = Inr t"
  shows "field_of k t = n"
proof -
  from assms(7) obtain r0 e0 v0 where
    h: "by_headers p (lit ''sa2'') = Inr r0" "by_headers p (lit ''sa3'') = Inr e0"
       "by_headers p (lit ''sa6'') = Inr v0" and
    c: "r0 \<noteq> 0 \<and> e0 \<noteq> 0 \<and> v0 \<noteq> 0 \<and> t = (r0, e0, v0) \<or>
     (\<exists>found. scan_rows (table_rows p) (found_of r0 e0 v0) = Inr found \<and>
        t = (found Registered, found Envelopes, found Valid))"
    by (rule extract_cases)
  have k: "found_of r0 e0 v0 k = 0"
    using h assms(1) by (rule found_of_header)
  then have "\<not> (r0 \<noteq> 0 \<and> e0 \<noteq> 0 \<and> v0 \<noteq> 0)"
    by (cases k) (auto simp: found_of_def)
  with c obtain found where
    s: "scan_rows (table_rows p) (found_of r0 e0 v0) = Inr found" and
    t: "t = (found Registered, found Envelopes, found Valid)" by blast
  let ?cells = "map get_text_sep row"
  from assms(3) have "\<not> length ?cells < 2" by simp
  then have "scan_rows (row # rest) (found_of r0 e0 v0) =
    (case scan_labels ?cells labels (found_of r0 e0 v0) of
       Inl e \<Rightarrow> Inl e
     | Inr g \<Rightarrow> scan_rows rest g)"
    by (simp add: Let_def)
  with s assms(2) obtain g where
    g: "scan_labels ?cells labels (found_of r0 e0 v0) = Inr g" and
    rest: "scan_rows rest g = Inr found"
    by (cases "scan_labels ?cells labels (found_of r0 e0 v0)") simp_all
  have "g k = n"
  proof (rule scan_labels_fills [OF g k])
    from assms(3) have len: "0 < length row" "1 < length row" by arith+
    show "str_in (label_of k) (?cells ! 0)"
      by (subst nth_map [OF len(1)]) (rule assms(4))
    show "clean_number (?cells ! 1) = Inr n"
      by (subst nth_map [OF len(2)]) (rule assms(5))
  qed
  with scan_rows_keeps [OF rest] assms(6) have "found k = n" by simp
  with t show ?thesis by (simp add: field_of_found)
qed

lemma clean_number_0: "clean_number (lit ''0'') = Inr 0"
  by (simp add: clean_number_def strip_def remove_cp_def isspace_cp_def isdigit_def
      isdigit_cp_def decimal_value_def int_of_str_def lit_def)

lemma by_headers_zero_cell:
  assumes "td_headers p h = None" "td_headers p' = (td_headers p)(h \<mapsto> lit ''0'')"
  shows "by_headers p' h' = by_headers p h'"
  using assms by (simp add: by_headers_def clean_number_0)

lemma zero_same_as_absent:
  assumes "td_headers p h = None" "td_headers p' = (td_headers p)(h \<mapsto> lit ''0'')"
    "table_rows p' = table_rows p"
  shows "extract_summary_numbers p' = extract_summary_numbers p"
  unfolding extract_summary_numbers_def
  by (simp only: by_headers_zero_cell [OF assms(1,2)] assms(3))

text \<open>
  Claim C10. For each of the three fields: a marked cell that reads \<open>0\<close> gives the
  same result as no marked cell at all, whatever the rows are; when the primary value is
  zero and the first row has the field's label in its first cell and a number other than
  zero in its second, the result carries that number; and a primary value other than
  zero is the result.
\<close>

theorem zero_is_missing:
  "(td_headers p (header_of k) = None \<and> td_headers p' = (td_headers p)(header_of k \<mapsto> lit ''0'') \<and>
    table_rows p' = table_rows p \<longrightarrow>
      extract_summary_numbers p' = extract_summary_numbers p) \<and>
   (by_headers p (header_of k) = Inr 0 \<and> table_rows p = row # rest \<and> 2 \<le> length row \<and>
    str_in (label_of k) (get_text_sep (row ! 0)) \<and>
    clean_number (get_text_sep (row ! 1)) = Inr n \<and> n \<noteq> 0 \<and>
    extract_summary_numbers p = Inr t \<longrightarrow>
      field_of k t = n) \<and>
   (by_headers p (header_of k) = Inr n0 \<and> n0 \<noteq> 0 \<and> extract_summary_numbers p = Inr t \<longrightarrow>
      field_of k t = n0)"
  using zero_same_as_absent zero_filled nonzero_kept by blast

lemma label_self: "str_in label_registered label_registered"
  by (simp add: str_in_def)

lemma label_not_envelopes: "\<not> str_in label_envelopes label_registered"
  by (simp add: str_in_def label_envelopes_def label_registered_def lit_def sublist_Cons_right)

lemma label_not_valid: "\<not> str_in label_valid label_registered"
  by (simp add: str_in_def label_valid_def label_registered_def lit_def sublist_Cons_right)

text \<open>
  A page without the three marked cells and with the row (label of the registered
  voters, \<open>1 234\<close>) gives 1234 registered voters.
\<close>

lemma fallback_scenario: "extract_summary_numbers fallback_page = Inr (1234, 0, 0)"
  by (simp add: extract_summary_numbers_def by_headers_def fallback_page_def label_td_def
      labels_def label_self label_not_envelopes label_not_valid clean_number_1_234 found_of_def)


text \<open>
  Claim C5. The Summary Extractor is meant never to abort the run. On a page whose cell
  with \<open>headers="sa2"\<close> reads superscript two, the normalization raises and the
  extractor raises with it: \<open>ValueError\<close> reaches the top level.
\<close>

theorem summary_superscript_raises:
  "extract_summary_numbers superscript_page = Inl ValueError"
  by (simp add: extract_summary_numbers_def by_headers_def superscript_page_def
      clean_number_def strip_def remove_cp_def isspace_cp_def isdigit_def isdigit_cp_def
      decimal_value_def decimal_zeros_def digit_only_ranges_def int_of_str_def)

theorem zero_is_missing_witness:
  "by_headers zero_page (lit ''sa2'') = Inr 0 \<and>
   extract_summary_numbers zero_page = extract_summary_numbers fallback_page \<and>
   extract_summary_numbers zero_page = Inr (1234, 0, 0) \<and>
   field_of Registered (1234, 0, 0) = 1234"
proof -
  have absent: "td_headers fallback_page (header_of Registered) = None"
    by (simp add: fallback_page_def)
  have cell: "td_headers zero_page = (td_headers fallback_page)(header_of Registered \<mapsto> lit ''0'')"
    by (simp add: zero_page_def fallback_page_def header_of_def)
  have rows: "table_rows zero_page = table_rows fallback_page"
    by (simp add: zero_page_def fallback_page_def)
  have zero: "by_headers zero_page (header_of Registered) = Inr 0"
    by (simp add: by_headers_def zero_page_def header_of_def clean_number_0)
  have same: "extract_summary_numbers zero_page = extract_summary_numbers fallback_page"
    using zero_is_missing [of fallback_page Registered zero_page] absent cell rows by blast
  then have result: "extract_summary_numbers zero_page = Inr (1234, 0, 0)"
    by (simp add: fallback_scenario)
  have "field_of Registered (1234, 0, 0) = 1234"
    using zero_is_missing [of zero_page Registered zero_page
        "[label_td TH label_registered, label_td TD (lit ''1 234'')]" "[]" 1234 "(1234, 0, 0)"]
      zero result
    by (simp add: zero_page_def label_td_def label_of_def label_self clean_number_1_234)
  with zero same result show ?thesis by (simp add: header_of_def)
qed

section \<open>Properties of the Party Vote Extractor\<close>

lemma dict_set_new: "map_of d k = None \<Longrightarrow> dict_set d k v = d @ [(k, v)]"
  by (induction d) (auto split: if_splits)

lemma map_of_None_iff: "map_of d k = None \<longleftrightarrow> k \<notin> set (map fst d)"
  by (simp add: map_of_eq_None_iff)

lemma first_vote_skip:
  "\<not> (counted row \<and> name_of row = p) \<Longrightarrow> first_vote (row # rows) p = first_vote rows p"
  by (auto simp: first_vote_def)

lemma first_vote_here:
  "counted row \<Longrightarrow> first_vote (row # rows) (name_of row) = vote_of row"
  by (simp add: first_vote_def)

text \<open>
  The loop over the rows, from any list and dictionary that agree: the names of the rows
  that count and are new are appended in the order of their first appearance, each with
  the votes of its first row.
\<close>

lemma party_rows_general:
  assumes "list_all vote_cell_ok rows" and "order = map fst votes"
  shows "party_rows rows order votes =
     Inr (order @ filter (\<lambda>p. p \<notin> set order) (party_names rows),
          votes @ map (\<lambda>p. (p, first_vote rows p))
                    (filter (\<lambda>p. p \<notin> set order) (party_names rows)))"
  using assms
proof (induction rows arbitrary: order votes)
  case Nil
  then show ?case by (simp add: party_names_def)
next
  case (Cons row rows)
  from Cons.prems have ok: "vote_cell_ok row" and oks: "list_all vote_cell_ok rows"
    by simp_all
  note IH = Cons.IH [OF oks]
  show ?case
  proof (cases "counted row")
    case False
    then have names: "party_names (row # rows) = party_names rows"
      by (simp add: party_names_def)
    have votes_same: "first_vote (row # rows) p = first_vote rows p" for p
      using False by (simp add: first_vote_skip)
    have "party_rows (row # rows) order votes = party_rows rows order votes"
      using False ok
      by (auto simp: counted_def vote_cell_ok_def Let_def split: option.splits sum.splits)
    then show ?thesis
      unfolding names votes_same using IH [OF Cons.prems(2)] by simp
  next
    case True
    then obtain c where c: "select_one_name row = Some c"
      and len: "\<not> length (find_all_td row) < 3" and ne: "get_text_sep c \<noteq> []"
      by (auto simp: counted_def split: option.splits)
    from ok c len obtain v where v: "clean_number (get_text_raw (find_all_td row ! 2)) = Inr v"
      by (auto simp: vote_cell_ok_def split: sum.splits)
    have name: "name_of row = get_text_sep c" by (simp add: name_of_def c)
    have vote: "vote_of row = v" by (simp add: vote_of_def v)
    have names: "party_names (row # rows) =
        name_of row # filter (\<lambda>y. y \<noteq> name_of row) (party_names rows)"
      using True by (simp add: party_names_def)
    show ?thesis
    proof (cases "name_of row \<in> set order")
      case seen: True
      then have "map_of votes (name_of row) \<noteq> None"
        using Cons.prems(2) by (simp add: map_of_None_iff)
      then have step: "party_rows (row # rows) order votes = party_rows rows order votes"
        using c len v name by (auto simp: Let_def)
      have f: "filter (\<lambda>p. p \<notin> set order) (party_names (row # rows)) =
               filter (\<lambda>p. p \<notin> set order) (party_names rows)"
        using seen by (auto simp: names intro: filter_cong)
      have m: "map (\<lambda>p. (p, first_vote (row # rows) p)) (filter (\<lambda>p. p \<notin> set order) (party_names rows)) =
            map (\<lambda>p. (p, first_vote rows p)) (filter (\<lambda>p. p \<notin> set order) (party_names rows))"
      proof (rule map_cong [OF refl])
        fix p assume "p \<in> set (filter (\<lambda>p. p \<notin> set order) (party_names rows))"
        with seen have "name_of row \<noteq> p" by auto
        then show "(p, first_vote (row # rows) p) = (p, first_vote rows p)"
          by (simp add: first_vote_skip)
      qed
      show ?thesis
        unfolding step f m by (rule IH [OF Cons.prems(2)])
    next
      case new: False
      then have none: "map_of votes (name_of row) = None"
        using Cons.prems(2) by (simp add: map_of_None_iff)
      then have step: "party_rows (row # rows) order votes =
          party_rows rows (order @ [name_of row]) (votes @ [(name_of row, v)])"
        using c len v name ne by (simp add: Let_def dict_set_new)
      have o: "order @ [name_of row] = map fst (votes @ [(name_of row, v)])"
        using Cons.prems(2) by simp
      let ?rest = "filter (\<lambda>p. p \<notin> set (order @ [name_of row])) (party_names rows)"
      have f: "filter (\<lambda>p. p \<notin> set order) (party_names (row # rows)) = name_of row # ?rest"
        using new by (auto simp: names intro: filter_cong)
      have m: "map (\<lambda>p. (p, first_vote (row # rows) p)) ?rest =
               map (\<lambda>p. (p, first_vote rows p)) ?rest"
      proof (rule map_cong [OF refl])
        fix p assume "p \<in> set ?rest"
        then have "name_of row \<noteq> p" by auto
        then show "(p, first_vote (row # rows) p) = (p, first_vote rows p)"
          by (simp add: first_vote_skip)
      qed
      show ?thesis
        using IH [OF o] True
        by (simp only: step f m list.map append_Cons append_Nil append_assoc
            first_vote_here vote)
    qed
  qed
qed


lemma first_seen_Nil_iff: "first_seen xs = [] \<longleftrightarrow> xs = []"
  by (cases xs) simp_all

lemma party_tally_Nil_iff: "party_tally rows = [] \<longleftrightarrow> filter counted rows = []"
  by (simp add: party_tally_def party_names_def first_seen_Nil_iff)

text \<open>
  Claim C6, as amended. When the vote cell of every row with the marker and three cells
  is normalized without error, the extractor fails with \<open>NoPartyResultsFound\<close> exactly
  when no row counts, that is when no row has a marked cell with a text that is not
  empty and at least three \<open>td\<close> cells; otherwise it returns the names of the rows that
  count in the order of their first appearance, and for each name the votes of its
  first row.
\<close>

theorem party_votes_outcome:
  assumes "list_all vote_cell_ok (table_rows page)"
  shows "extract_party_votes page =
     (if filter counted (table_rows page) = [] then Inl (Die NoPartyResultsFound)
      else Inr (party_names (table_rows page), party_tally (table_rows page)))"
proof -
  have "party_rows (table_rows page) [] [] =
      Inr (party_names (table_rows page), party_tally (table_rows page))"
    using party_rows_general [OF assms, of "[]" "[]"] by (simp add: party_tally_def)
  then show ?thesis
    by (simp add: extract_party_votes_def party_tally_Nil_iff)
qed

text \<open>
  The claim as it stands fails on a page whose only row has the marked cell and one
  more cell: a row with the marker is there, and the extractor still fails with
  \<open>NoPartyResultsFound\<close>.
\<close>

theorem marker_row_not_counted:
  "\<not> (extract_party_votes two_cell_page = Inl (Die NoPartyResultsFound) \<longleftrightarrow>
      marker_rows two_cell_page = [])"
  by (simp add: extract_party_votes_def two_cell_page_def marker_rows_def select_one_name_def
      find_all_td_def party_td_def plain_td_def)

lemma demo_rows_ok: "list_all vote_cell_ok (table_rows demo_municipality)"
  by (simp add: demo_municipality_def vote_cell_ok_def select_one_name_def find_all_td_def
      party_td_def plain_td_def clean_number_40 clean_number_35)

lemma lit_X_Y: "lit ''Strana X'' \<noteq> lit ''Strana Y''" "lit ''Strana Y'' \<noteq> lit ''Strana X''"
  by (simp_all add: lit_def)

lemma demo_names:
  "party_names (table_rows demo_municipality) = [lit ''Strana X'', lit ''Strana Y'']"
  by (simp add: demo_municipality_def party_names_def counted_def name_of_def
      select_one_name_def find_all_td_def party_td_def plain_td_def lit_def)

lemma demo_votes:
  "first_vote (table_rows demo_municipality) (lit ''Strana X'') = 40"
  "first_vote (table_rows demo_municipality) (lit ''Strana Y'') = 35"
proof -
  have x: "vote_of [plain_td (lit ''1''), party_td (lit ''Strana X''), plain_td (lit ''40'')] = 40"
    by (simp add: vote_of_def find_all_td_def party_td_def plain_td_def clean_number_40)
  have y: "vote_of [plain_td (lit ''2''), party_td (lit ''Strana Y''), plain_td (lit ''35'')] = 35"
    by (simp add: vote_of_def find_all_td_def party_td_def plain_td_def clean_number_35)
  have names:
    "name_of [plain_td (lit ''1''), party_td (lit ''Strana X''), plain_td (lit ''40'')] = lit ''Strana X''"
    "name_of [plain_td (lit ''2''), party_td (lit ''Strana Y''), plain_td (lit ''35'')] = lit ''Strana Y''"
    by (simp_all add: name_of_def select_one_name_def party_td_def plain_td_def)
  have counts:
    "counted [plain_td (lit ''1''), party_td (lit ''Strana X''), plain_td (lit ''40'')]"
    "counted [plain_td (lit ''2''), party_td (lit ''Strana Y''), plain_td (lit ''35'')]"
    by (simp_all add: counted_def select_one_name_def find_all_td_def party_td_def plain_td_def
        lit_def)
  show "first_vote (table_rows demo_municipality) (lit ''Strana X'') = 40"
    by (simp add: demo_municipality_def first_vote_def names counts x)
  show "first_vote (table_rows demo_municipality) (lit ''Strana Y'') = 35"
    by (simp add: demo_municipality_def first_vote_def names counts y lit_X_Y)
qed

lemma demo_tally:
  "party_tally (table_rows demo_municipality) = [(lit ''Strana X'', 40), (lit ''Strana Y'', 35)]"
  by (simp add: party_tally_def demo_names demo_votes)

theorem party_votes_outcome_witness:
  "list_all vote_cell_ok (table_rows demo_municipality) \<and>
   extract_party_votes demo_municipality =
     Inr ([lit ''Strana X'', lit ''Strana Y''], [(lit ''Strana X'', 40), (lit ''Strana Y'', 35)])"
  using party_votes_outcome [OF demo_rows_ok] demo_rows_ok
  by (simp add: demo_names demo_tally party_tally_Nil_iff [symmetric])

section \<open>Properties of the command line\<close>

lemma suffix_drop:
  "suffix p ys \<longleftrightarrow> length p \<le> length ys \<and> drop (length ys - length p) ys = p"
proof
  assume "suffix p ys"
  then obtain zs where "ys = zs @ p" by (auto simp: suffix_def)
  then show "length p \<le> length ys \<and> drop (length ys - length p) ys = p" by simp
next
  assume a: "length p \<le> length ys \<and> drop (length ys - length p) ys = p"
  have "ys = take (length ys - length p) ys @ drop (length ys - length p) ys" by simp
  with a have "ys = take (length ys - length p) ys @ p" by simp
  then show "suffix p ys" unfolding suffix_def by blast
qed

lemma list4: "length t = 4 \<Longrightarrow> t = [t ! 0, t ! 1, t ! 2, t ! 3]"
  by (auto simp: list_eq_iff_nth_eq nth_Cons' numeral_eq_Suc less_Suc_eq)

lemma lower_cp_46: "lower_cp a = 46 \<longleftrightarrow> a = 46" by (auto simp: lower_cp_def)
lemma lower_cp_99: "lower_cp a = 99 \<longleftrightarrow> a = 99 \<or> a = 67" by (auto simp: lower_cp_def)
lemma lower_cp_115: "lower_cp a = 115 \<longleftrightarrow> a = 115 \<or> a = 83" by (auto simp: lower_cp_def)
lemma lower_cp_118: "lower_cp a = 118 \<longleftrightarrow> a = 118 \<or> a = 86" by (auto simp: lower_cp_def)

lemma lit_csv: "lit ''.csv'' = [46, 99, 115, 118]" by (simp add: lit_def)

lemma endswith_drop4:
  "endswith (lower s) (lit ''.csv'') \<longleftrightarrow>
     4 \<le> length s \<and> map lower_cp (drop (length s - 4) s) = [46, 99, 115, 118]"
proof -
  have l4: "length (lit ''.csv'') = 4" by (simp add: lit_def)
  have "endswith (lower s) (lit ''.csv'') \<longleftrightarrow>
      4 \<le> length (map lower_cp s) \<and>
      drop (length (map lower_cp s) - 4) (map lower_cp s) = lit ''.csv''"
    unfolding endswith_def lower_def suffix_drop l4 ..
  then show ?thesis by (simp only: length_map drop_map lit_csv)
qed

text \<open>
  The suffix test of the source, on the lower-cased path, is the test on the last four
  characters.
\<close>

lemma endswith_lower_csv: "endswith (lower s) (lit ''.csv'') \<longleftrightarrow> ends_with_csv s"
proof (cases "4 \<le> length s")
  case False
  then show ?thesis
    by (simp add: endswith_drop4 ends_with_csv_def)
next
  case True
  let ?t = "drop (length s - 4) s"
  from True have len: "length ?t = 4" by simp
  have t: "?t = [?t ! 0, ?t ! 1, ?t ! 2, ?t ! 3]" using len by (rule list4)
  have "map lower_cp ?t = [46, 99, 115, 118] \<longleftrightarrow>
        map lower_cp [?t ! 0, ?t ! 1, ?t ! 2, ?t ! 3] = [46, 99, 115, 118]"
    using t by simp
  also have "\<dots> \<longleftrightarrow> ends_with_csv s"
    using True by (simp add: ends_with_csv_def Let_def lower_cp_46 lower_cp_99 lower_cp_115 lower_cp_118)
  finally show ?thesis using True by (simp add: endswith_drop4)
qed

lemma parse_args_accepted:
  "accepted argv \<Longrightarrow> parse_args argv = Inr (strip (argv ! 1), strip (argv ! 2))"
  by (simp add: accepted_def parse_args_def Let_def endswith_lower_csv)

lemma parse_args_rejected:
  "\<not> accepted argv \<Longrightarrow> \<exists>m. parse_args argv = Inl (Die m)"
  by (auto simp: accepted_def parse_args_def Let_def endswith_lower_csv)

lemma main_rejected: "parse_args argv = Inl e \<Longrightarrow> main w argv s = (Inl e, s)"
  by (simp add: main_def)

text \<open>
  Claim C9. An accepted argument list gives the two arguments with the white space at
  their ends removed. Any other argument list makes \<open>parse_args\<close> exit through \<open>die\<close>:
  the program ends with exit status 1 and the state is the one it started in, so that
  nothing was requested and nothing was written.
\<close>

theorem arguments_accepted:
  "(accepted argv \<longrightarrow> parse_args argv = Inr (strip (argv ! 1), strip (argv ! 2))) \<and>
   (\<not> accepted argv \<longrightarrow>
      (\<exists>m. parse_args argv = Inl (Die m) \<and> main w argv s = (Inl (Die m), s) \<and>
           exit_status (Inl (Die m)) = 1))"
proof (intro conjI impI)
  assume "accepted argv"
  then show "parse_args argv = Inr (strip (argv ! 1), strip (argv ! 2))"
    by (rule parse_args_accepted)
next
  assume "\<not> accepted argv"
  then obtain m where m: "parse_args argv = Inl (Die m)"
    using parse_args_rejected by blast
  then have "main w argv s = (Inl (Die m), s)" by (rule main_rejected)
  with m show "\<exists>m. parse_args argv = Inl (Die m) \<and> main w argv s = (Inl (Die m), s) \<and>
           exit_status (Inl (Die m)) = 1"
    by (auto simp: exit_status_def)
qed

lemma strip_padded_url: "strip (lit '' http://example.org/volby.cz '') = lit ''http://example.org/volby.cz''"
  by (simp add: strip_def isspace_cp_def lit_def)

lemma strip_padded_out: "strip (lit ''Out.CSV  '') = lit ''Out.CSV''"
  by (simp add: strip_def isspace_cp_def lit_def)

lemma strip_ftp: "strip (lit ''ftp://www.volby.cz/ps32'') = lit ''ftp://www.volby.cz/ps32''"
  by (simp add: strip_def isspace_cp_def lit_def)

lemma accepted_padded: "accepted padded_argv"
  unfolding accepted_def padded_argv_def
  by (simp add: strip_padded_url strip_padded_out)
     (simp add: startswith_def str_in_def ends_with_csv_def lit_def sublist_Cons_right)

lemma rejected_ftp: "\<not> accepted ftp_argv"
  unfolding accepted_def ftp_argv_def
  by (simp add: strip_ftp) (simp add: startswith_def lit_def)

theorem arguments_accepted_witness:
  "accepted padded_argv \<and>
   parse_args padded_argv = Inr (lit ''http://example.org/volby.cz'', lit ''Out.CSV'') \<and>
   \<not> accepted ftp_argv \<and>
   main demo_env ftp_argv empty_state = (Inl (Die NotHttpUrl), empty_state) \<and>
   requested (snd (main demo_env ftp_argv empty_state)) = []"
proof -
  have a: "parse_args padded_argv = Inr (lit ''http://example.org/volby.cz'', lit ''Out.CSV'')"
    using arguments_accepted [of padded_argv] accepted_padded
    by (simp add: padded_argv_def strip_padded_url strip_padded_out)
  obtain m where m: "parse_args ftp_argv = Inl (Die m)"
    and r: "main demo_env ftp_argv empty_state = (Inl (Die m), empty_state)"
    using arguments_accepted [of ftp_argv demo_env empty_state] rejected_ftp by blast
  have "parse_args ftp_argv = Inl (Die NotHttpUrl)"
    by (simp add: parse_args_def ftp_argv_def strip_ftp) (simp add: startswith_def lit_def)
  with m have "m = NotHttpUrl" by simp
  with r a accepted_padded rejected_ftp show ?thesis
    by (simp add: empty_state_def)
qed

section \<open>Properties of the program\<close>

text \<open>
  Fetching only adds to the log of requests, and what is fetched does not depend on
  the state.
\<close>

lemma fetch_soup_state:
  "fetch_soup w url s = (r, s') \<Longrightarrow> s' = s\<lparr>requested := requested s @ [url]\<rparr>"
  by (auto simp: fetch_soup_def Let_def split: response.splits if_splits)

lemma fetch_soup_result:
  "fst (fetch_soup w url s) = fst (fetch_soup w url s0)"
  by (simp add: fetch_soup_def Let_def split: response.splits)

lemma scrape_municipality_state:
  "scrape_municipality w m s = (r, s') \<Longrightarrow> s' = s\<lparr>requested := requested s @ [muni_url m]\<rparr>"
  unfolding scrape_municipality_def
  by (cases "fetch_soup w (muni_url m) s")
     (auto dest!: fetch_soup_state split: sum.splits prod.splits)

lemma scrape_municipality_result:
  "fst (scrape_municipality w m s) = fst (scrape_municipality w m s0)"
proof -
  obtain r s1 where a: "fetch_soup w (muni_url m) s = (r, s1)" by (cases "fetch_soup w (muni_url m) s")
  obtain r0 s2 where b: "fetch_soup w (muni_url m) s0 = (r0, s2)" by (cases "fetch_soup w (muni_url m) s0")
  from fetch_soup_result [of w "muni_url m" s s0] a b have "r = r0" by simp
  with a b show ?thesis
    by (simp add: scrape_municipality_def split: sum.splits prod.splits)
qed

lemma scraped_iff: "scraped w m r \<longleftrightarrow> fst (scrape_municipality w m s) = Inr r"
  unfolding scraped_def by (subst scrape_municipality_result [of w m s]) simp

text \<open>
  The list of party names and the dictionary of votes grow together, so a record that
  was scraped has at least one party.
\<close>

lemma party_rows_lengths:
  "party_rows rows order votes = Inr (order', votes') \<Longrightarrow> length order = length votes \<Longrightarrow>
   length order' = length votes'"
proof (induction rows arbitrary: order votes)
  case Nil
  then show ?case by simp
next
  case (Cons row rows)
  show ?case
  proof (cases "party_rows (row # rows) order votes = party_rows rows order votes")
    case True
    with Cons show ?thesis by simp
  next
    case False
    have "\<exists>(c::cell) v. party_rows (row # rows) order votes =
             party_rows rows (order @ [get_text_sep c]) (dict_set votes (get_text_sep c) v) \<and>
             map_of votes (get_text_sep c) = None"
    proof (cases "select_one_name row")
      case None
      with False show ?thesis by simp
    next
      case (Some c)
      show ?thesis
      proof (cases "clean_number (get_text_raw (find_all_td row ! 2))")
        case (Inl e)
        with Some False Cons.prems(1) show ?thesis
          by (simp add: Let_def split: if_splits)
      next
        case (Inr v)
        with Some False have
          "party_rows (row # rows) order votes =
             party_rows rows (order @ [get_text_sep c]) (dict_set votes (get_text_sep c) v) \<and>
           map_of votes (get_text_sep c) = None"
          by (simp add: Let_def split: if_splits)
        then show ?thesis by blast
      qed
    qed
    then obtain c :: cell and v where
      step: "party_rows (row # rows) order votes =
             party_rows rows (order @ [get_text_sep c]) (dict_set votes (get_text_sep c) v)"
      and none: "map_of votes (get_text_sep c) = None"
      by blast
    from none have "dict_set votes (get_text_sep c) v = votes @ [(get_text_sep c, v)]"
      by (rule dict_set_new)
    with step Cons.prems have
      "party_rows rows (order @ [get_text_sep c]) (votes @ [(get_text_sep c, v)]) = Inr (order', votes')"
      by simp
    from Cons.IH [OF this] Cons.prems(2) show ?thesis by simp
  qed
qed

lemma extract_party_votes_order:
  "extract_party_votes page = Inr (order, votes) \<Longrightarrow> order \<noteq> []"
proof -
  assume a: "extract_party_votes page = Inr (order, votes)"
  then have r: "party_rows (table_rows page) [] [] = Inr (order, votes)" and v: "votes \<noteq> []"
    by (auto simp: extract_party_votes_def split: sum.splits prod.splits if_splits)
  from party_rows_lengths [OF r] have "length order = length votes" by simp
  with v show ?thesis by auto
qed

lemma scrape_municipality_order:
  "scrape_municipality w m s = (Inr data, s') \<Longrightarrow> r_party_order data \<noteq> []"
  unfolding scrape_municipality_def
  by (auto split: sum.splits prod.splits dest: extract_party_votes_order)

text \<open>
  The loop of \<open>main\<close>: one record for each municipality, in order; the party columns
  are those of the first record when none were set, and stay as they are otherwise.
\<close>

lemma scrape_loop_general:
  "scrape_loop w ms rows cols s = (Inr (rows', cols'), s') \<Longrightarrow>
   \<exists>new. rows' = rows @ new \<and> list_all2 (scraped w) ms new \<and>
         cols' = (if cols = [] \<and> new \<noteq> [] then r_party_order (hd new) else cols) \<and>
         s' = s\<lparr>requested := requested s @ map muni_url ms\<rparr>"
proof (induction ms arbitrary: rows cols s)
  case Nil
  then show ?case by simp
next
  case (Cons m ms)
  obtain r s1 where sm: "scrape_municipality w m s = (r, s1)"
    by (cases "scrape_municipality w m s")
  with Cons.prems obtain data where r: "r = Inr data"
    by (cases r) auto
  let ?cols = "if cols = [] then r_party_order data else cols"
  from Cons.prems sm r have loop: "scrape_loop w ms (rows @ [data]) ?cols s1 = (Inr (rows', cols'), s')"
    by simp
  from Cons.IH [OF loop] obtain new where
    rows': "rows' = (rows @ [data]) @ new" and all: "list_all2 (scraped w) ms new" and
    cols': "cols' = (if ?cols = [] \<and> new \<noteq> [] then r_party_order (hd new) else ?cols)" and
    s': "s' = s1\<lparr>requested := requested s1 @ map muni_url ms\<rparr>"
    by blast
  have order: "r_party_order data \<noteq> []"
    using sm r by (auto dest: scrape_municipality_order)
  have sc: "scraped w m data"
    using sm r by (simp add: scraped_iff [of w m data s])
  have s1: "s1 = s\<lparr>requested := requested s @ [muni_url m]\<rparr>"
    using sm by (rule scrape_municipality_state)
  show ?case
  proof (intro exI conjI)
    show "rows' = rows @ (data # new)" using rows' by simp
    show "list_all2 (scraped w) (m # ms) (data # new)" using sc all by simp
    show "cols' = (if cols = [] \<and> data # new \<noteq> [] then r_party_order (hd (data # new)) else cols)"
      using cols' order by simp
    show "s' = s\<lparr>requested := requested s @ map muni_url (m # ms)\<rparr>"
      using s' s1 by simp
  qed
qed

lemma scrape_loop_files: "scrape_loop w ms rows cols s = (r, s') \<Longrightarrow> files s' = files s"
proof (induction ms arbitrary: rows cols s)
  case Nil
  then show ?case by simp
next
  case (Cons m ms)
  obtain r1 s1 where sm: "scrape_municipality w m s = (r1, s1)"
    by (cases "scrape_municipality w m s")
  then have f: "files s1 = files s"
    by (auto dest: scrape_municipality_state)
  show ?case
  proof (cases r1)
    case (Inl e)
    with Cons.prems sm f show ?thesis by simp
  next
    case (Inr data)
    with Cons.prems sm have "scrape_loop w ms (rows @ [data])
        (if cols = [] then r_party_order data else cols) s1 = (r, s')" by simp
    from Cons.IH [OF this] f show ?thesis by simp
  qed
qed

lemma find_municipalities_nonempty: "find_municipalities w page url = Inr ms \<Longrightarrow> ms \<noteq> []"
  by (auto simp: find_municipalities_def Let_def split: if_splits)

text \<open>The two ways \<open>main\<close> ends.\<close>

lemma main_failure: "main w argv s = (Inl e, s') \<Longrightarrow> files s' = files s"
  unfolding main_def write_csv_def
  by (auto split: sum.splits prod.splits if_splits
      dest!: fetch_soup_state scrape_loop_files)

lemma main_success:
  assumes "main w argv s = (Inr (), s')"
  shows "\<exists>url out page ms rows.
     parse_args argv = Inr (url, out) \<and> http_get w url = Response 200 page \<and>
     find_municipalities w page url = Inr ms \<and> ms \<noteq> [] \<and>
     list_all2 (scraped w) ms rows \<and> can_open w out \<and>
     requested s' = requested s @ url # map muni_url ms \<and>
     files s' = (files s)(out \<mapsto> csv_rows rows (r_party_order (hd rows)))"
proof -
  from assms obtain url out where pa: "parse_args argv = Inr (url, out)"
    by (auto simp: main_def split: sum.splits)
  obtain r1 s1 where f: "fetch_soup w url s = (r1, s1)" by (cases "fetch_soup w url s")
  with assms pa obtain page where r1: "r1 = Inr page"
    by (cases r1) (auto simp: main_def)
  from f r1 have get: "http_get w url = Response 200 page"
    by (auto simp: fetch_soup_def Let_def split: response.splits if_splits)
  from f have s1: "s1 = s\<lparr>requested := requested s @ [url]\<rparr>" by (rule fetch_soup_state)
  from assms pa f r1 obtain ms where fm: "find_municipalities w page url = Inr ms"
    by (cases "find_municipalities w page url") (auto simp: main_def)
  then have ne: "ms \<noteq> []" by (rule find_municipalities_nonempty)
  obtain r2 s2 where l: "scrape_loop w ms [] [] s1 = (r2, s2)"
    by (cases "scrape_loop w ms [] [] s1")
  with assms pa f r1 fm obtain rows cols where r2: "r2 = Inr (rows, cols)"
    by (cases r2) (auto simp: main_def)
  from assms pa f r1 fm l r2 have w: "write_csv w rows cols out s2 = (Inr (), s')"
    by (simp add: main_def)
  then have op: "can_open w out" and
    s': "s' = s2\<lparr>files := (files s2)(out \<mapsto> csv_rows rows cols)\<rparr>"
    by (auto simp: write_csv_def split: if_splits)
  from scrape_loop_general [OF l [unfolded r2]] obtain new where
    "rows = [] @ new \<and> list_all2 (scraped w) ms new \<and>
     cols = (if ([]::pystr list) = [] \<and> new \<noteq> [] then r_party_order (hd new) else []) \<and>
     s2 = s1\<lparr>requested := requested s1 @ map muni_url ms\<rparr>" ..
  then have new: "rows = new" "list_all2 (scraped w) ms new"
      "cols = (if new \<noteq> [] then r_party_order (hd new) else [])"
      "s2 = s1\<lparr>requested := requested s1 @ map muni_url ms\<rparr>"
    by simp_all
  from new(2) have "length ms = length new" by (rule list_all2_lengthD)
  with ne have "new \<noteq> []" by auto
  with new(1,2) have rows: "list_all2 (scraped w) ms rows" "rows \<noteq> []"
    by simp_all
  with new have cols: "cols = r_party_order (hd rows)" by simp
  show ?thesis
  proof (intro exI conjI)
    show "parse_args argv = Inr (url, out)" by (rule pa)
    show "http_get w url = Response 200 page" by (rule get)
    show "find_municipalities w page url = Inr ms" by (rule fm)
    show "ms \<noteq> []" by (rule ne)
    show "list_all2 (scraped w) ms rows" by (rule rows(1))
    show "can_open w out" by (rule op)
    show "requested s' = requested s @ url # map muni_url ms"
      using s' new(4) s1 by simp
    show "files s' = (files s)(out \<mapsto> csv_rows rows (r_party_order (hd rows)))"
      using s' new(4) s1 cols by simp
  qed
qed

section \<open>The district with two municipalities, step by step\<close>

lemma extract_party_votes_tally:
  assumes "list_all vote_cell_ok (table_rows page)" "party_tally (table_rows page) \<noteq> []"
  shows "extract_party_votes page =
         Inr (party_names (table_rows page), party_tally (table_rows page))"
proof -
  have "party_rows (table_rows page) [] [] =
      Inr (party_names (table_rows page), party_tally (table_rows page))"
    using party_rows_general [OF assms(1), of "[]" "[]"] by (simp add: party_tally_def)
  with assms(2) show ?thesis
    by (simp add: extract_party_votes_def)
qed

lemma demo_party_votes:
  "extract_party_votes demo_municipality = Inr (map fst votes_x_y, votes_x_y)"
  using extract_party_votes_tally [OF demo_rows_ok]
  by (simp add: demo_names demo_tally votes_x_y_def)

lemma demo_summary: "extract_summary_numbers demo_municipality = Inr (100, 80, 75)"
proof -
  have "by_headers demo_municipality (lit ''sa2'') = Inr 100"
    "by_headers demo_municipality (lit ''sa3'') = Inr 80"
    "by_headers demo_municipality (lit ''sa6'') = Inr 75"
    by (simp_all add: by_headers_def demo_municipality_def clean_number_100 clean_number_80
        clean_number_75) (simp_all add: lit_def)
  then show ?thesis by (simp add: extract_summary_numbers_def)
qed

lemma demo_entries:
  "municipality_entries demo_env district_url (anchors demo_district) = [alfa, beta]"
  by (simp add: demo_district_def demo_env_def page_defs digit_defs str_in_def lit_def
      sublist_Cons_right alfa_def beta_def alfa_url_def beta_url_def)

lemma demo_municipalities:
  "find_municipalities demo_env demo_district district_url = Inr [alfa, beta]"
proof -
  have "deduplicated [alfa, beta] = [alfa, beta]"
    by (simp add: deduplicated_def last_with_code_def alfa_def beta_def lit_def)
  then show ?thesis
    by (simp add: find_municipalities_def demo_entries map_snd_unique Let_def)
qed

lemma urls_differ: "alfa_url \<noteq> district_url" "beta_url \<noteq> district_url" "alfa_url \<noteq> beta_url"
  by (simp_all add: alfa_url_def beta_url_def district_url_def lit_def)

lemma demo_scrape:
  "scrape_municipality demo_env alfa s =
     (Inr (demo_row alfa votes_x_y), s\<lparr>requested := requested s @ [alfa_url]\<rparr>)"
  "scrape_municipality demo_env beta s =
     (Inr (demo_row beta votes_x_y), s\<lparr>requested := requested s @ [beta_url]\<rparr>)"
  by (simp_all add: scrape_municipality_def fetch_soup_def demo_env_def alfa_def beta_def
      urls_differ demo_summary demo_party_votes demo_row_def)

lemma parse_demo: "parse_args demo_argv = Inr (district_url, lit ''out.csv'')"
proof -
  have "strip district_url = district_url"
    by (simp add: strip_def isspace_cp_def district_url_def lit_def)
  moreover have "strip (lit ''out.csv'') = lit ''out.csv''"
    by (simp add: strip_def isspace_cp_def lit_def)
  moreover have "startswith district_url (lit ''https://'')"
    by (simp add: startswith_def district_url_def lit_def)
  moreover have "str_in (lit ''volby.cz'') district_url"
    by (simp add: str_in_def district_url_def lit_def sublist_Cons_right)
  moreover have "endswith (lower (lit ''out.csv'')) (lit ''.csv'')"
    unfolding endswith_lower_csv by (simp add: ends_with_csv_def lit_def)
  ultimately show ?thesis
    by (simp add: parse_args_def demo_argv_def)
qed

lemma demo_loop:
  "scrape_loop demo_env [alfa, beta] [] [] s =
     (Inr ([demo_row alfa votes_x_y, demo_row beta votes_x_y], map fst votes_x_y),
      s\<lparr>requested := requested s @ [alfa_url, beta_url]\<rparr>)"
  by (simp add: demo_scrape demo_row_def votes_x_y_def)

lemma demo_main:
  "main demo_env demo_argv s =
     (Inr (),
      s\<lparr>requested := requested s @ [district_url, alfa_url, beta_url],
        files := (files s)(lit ''out.csv'' \<mapsto>
          csv_rows [demo_row alfa votes_x_y, demo_row beta votes_x_y] (map fst votes_x_y))\<rparr>)"
proof -
  have f: "fetch_soup demo_env district_url s =
      (Inr demo_district, s\<lparr>requested := requested s @ [district_url]\<rparr>)"
    by (simp add: fetch_soup_def demo_env_def)
  show ?thesis
    by (simp add: main_def parse_demo f demo_municipalities demo_loop write_csv_def
        del: scrape_loop.simps)
       (simp add: demo_env_def)
qed

section \<open>No partial output\<close>

lemma exit_status_error: "exit_status (Inl e) = 1"
  by (cases e) (simp_all add: exit_status_def)

text \<open>
  Claim C8. When \<open>main\<close> ends with an error (a \<open>die\<close> or an exception that nothing
  catches), the exit status is not zero and the files are those of the start: nothing
  was created or written. When it returns, the exit status is zero, every municipality
  of the district was requested and scraped, and the one file written holds the rows
  of all the records.
\<close>

theorem no_partial_output:
  assumes "main w argv s = (r, s')"
  shows "(\<forall>e. r = Inl e \<longrightarrow> exit_status r \<noteq> 0 \<and> files s' = files s) \<and>
         (r = Inr () \<longrightarrow>
            exit_status r = 0 \<and>
            (\<exists>url out page ms rows.
               parse_args argv = Inr (url, out) \<and> http_get w url = Response 200 page \<and>
               find_municipalities w page url = Inr ms \<and> list_all2 (scraped w) ms rows \<and>
               requested s' = requested s @ url # map muni_url ms \<and>
               files s' = (files s)(out \<mapsto> csv_rows rows (r_party_order (hd rows)))))"
proof (intro conjI allI impI)
  fix e assume "r = Inl e"
  then show "exit_status r \<noteq> 0" by (simp add: exit_status_error)
  from \<open>r = Inl e\<close> assms show "files s' = files s" by (auto dest: main_failure)
next
  assume "r = Inr ()"
  then show "exit_status r = 0" by (simp add: exit_status_def)
  from \<open>r = Inr ()\<close> assms have "main w argv s = (Inr (), s')" by simp
  from main_success [OF this]
  show "\<exists>url out page ms rows.
               parse_args argv = Inr (url, out) \<and> http_get w url = Response 200 page \<and>
               find_municipalities w page url = Inr ms \<and> list_all2 (scraped w) ms rows \<and>
               requested s' = requested s @ url # map muni_url ms \<and>
               files s' = (files s)(out \<mapsto> csv_rows rows (r_party_order (hd rows)))"
    by blast
qed

lemma bare_main:
  "main bare_env demo_argv s =
     (Inl (Die NoMunicipalitiesFound), s\<lparr>requested := requested s @ [district_url]\<rparr>)"
proof -
  have f: "fetch_soup bare_env district_url s =
      (Inr bare_page, s\<lparr>requested := requested s @ [district_url]\<rparr>)"
    by (simp add: fetch_soup_def bare_env_def)
  have "find_municipalities bare_env bare_page district_url = Inl (Die NoMunicipalitiesFound)"
    by (simp add: find_municipalities_def bare_page_def unique_by_code_def)
  with f show ?thesis
    by (simp add: main_def parse_demo)
qed

theorem no_partial_output_witness:
  "fst (main bare_env demo_argv empty_state) = Inl (Die NoMunicipalitiesFound) \<and>
   exit_status (fst (main bare_env demo_argv empty_state)) \<noteq> 0 \<and>
   files (snd (main bare_env demo_argv empty_state)) = files empty_state \<and>
   fst (main demo_env demo_argv empty_state) = Inr () \<and>
   exit_status (fst (main demo_env demo_argv empty_state)) = 0 \<and>
   requested (snd (main demo_env demo_argv empty_state)) = [district_url, alfa_url, beta_url]"
proof -
  have bare: "main bare_env demo_argv empty_state =
      (fst (main bare_env demo_argv empty_state), snd (main bare_env demo_argv empty_state))"
    by simp
  have demo: "main demo_env demo_argv empty_state =
      (fst (main demo_env demo_argv empty_state), snd (main demo_env demo_argv empty_state))"
    by simp
  have b: "fst (main bare_env demo_argv empty_state) = Inl (Die NoMunicipalitiesFound)"
    by (simp add: bare_main)
  have d: "fst (main demo_env demo_argv empty_state) = Inr ()"
    by (simp add: demo_main)
  have "requested (snd (main demo_env demo_argv empty_state)) = [district_url, alfa_url, beta_url]"
    by (simp add: demo_main empty_state_def)
  with no_partial_output [OF bare] no_partial_output [OF demo] b d show ?thesis
    by simp
qed

section \<open>Properties of the Tabular Writer\<close>

text \<open>
  The dictionary \<open>out\<close> of a record holds, for each party column, the votes of that
  party in the record, or 0 when the record has none; a key that is no party column
  keeps its fixed value.
\<close>

lemma dict_get_dict_set:
  "dict_get (dict_set d k v) k' dflt = (if k' = k then v else dict_get d k' dflt)"
  by (induction d) (auto simp: dict_get_def)

lemma dict_get_foldl:
  "dict_get (foldl (\<lambda>out p. dict_set out p (f p)) d ps) k dflt =
     (if k \<in> set ps then f k else dict_get d k dflt)"
  by (induction ps arbitrary: d) (auto simp: dict_get_dict_set)

lemma dict_get_out_dict:
  "p \<in> set cols \<Longrightarrow>
   dict_get (out_dict r cols) p dflt = I (dict_get (r_party_votes r) p 0)"
  by (simp add: out_dict_def dict_get_foldl)

lemma dict_get_out_fixed:
  "k \<notin> set cols \<Longrightarrow> dict_get (out_dict r cols) k dflt = dict_get (out_fixed r) k dflt"
  by (simp add: out_dict_def dict_get_foldl)

lemma length_fixed_columns: "length fixed_columns = 5"
  by (simp add: fixed_columns_def)

lemma data_row_length:
  "length (data_row (fixed_columns @ cols) cols r) = length (fixed_columns @ cols)"
  by (simp add: data_row_def dict_to_list_def)

lemma data_row_parties:
  "drop 5 (data_row (fixed_columns @ cols) cols r) =
     map (\<lambda>p. I (case map_of (r_party_votes r) p of None \<Rightarrow> 0 | Some n \<Rightarrow> n)) cols"
proof -
  have "drop 5 (data_row (fixed_columns @ cols) cols r) =
        map (\<lambda>k. dict_get (out_dict r cols) k (S [])) cols"
    by (simp add: data_row_def dict_to_list_def drop_map length_fixed_columns)
  also have "\<dots> = map (\<lambda>p. I (dict_get (r_party_votes r) p 0)) cols"
    by (rule map_cong [OF refl]) (simp add: dict_get_out_dict)
  finally show ?thesis by (simp add: dict_get_def)
qed

lemma data_row_fixed:
  assumes "set cols \<inter> set fixed_columns = {}"
  shows "take 5 (data_row (fixed_columns @ cols) cols r) =
     [S (r_code r), S (r_location r), I (r_registered r), I (r_envelopes r), I (r_valid r)]"
proof -
  have "take 5 (data_row (fixed_columns @ cols) cols r) =
        map (\<lambda>k. dict_get (out_dict r cols) k (S [])) fixed_columns"
    by (simp add: data_row_def dict_to_list_def take_map length_fixed_columns)
  also have "\<dots> = map (\<lambda>k. dict_get (out_fixed r) k (S [])) fixed_columns"
    using assms by (intro map_cong refl dict_get_out_fixed) auto
  also have "\<dots> = [S (r_code r), S (r_location r), I (r_registered r), I (r_envelopes r),
      I (r_valid r)]"
    by (simp add: fixed_columns_def out_fixed_def dict_get_def lit_def)
  finally show ?thesis .
qed

text \<open>
  Claim C2. When the program succeeds, the party columns are the party order of the
  first record scraped, the header is the fixed columns followed by them, and the row
  of every record, whatever its own parties are, has as many cells as the header; after
  the five fixed cells it holds, for each party column in turn, the votes of that party
  in the record, or 0 when the record has no such party. A party of the record that is
  no party column has no cell.
\<close>

theorem schema_projection:
  assumes "main w argv s = (Inr (), s')"
  shows "\<exists>url out page ms rows cols.
     parse_args argv = Inr (url, out) \<and> http_get w url = Response 200 page \<and>
     find_municipalities w page url = Inr ms \<and> list_all2 (scraped w) ms rows \<and>
     rows \<noteq> [] \<and> cols = r_party_order (hd rows) \<and>
     files s' out =
       Some (map S (fixed_columns @ cols) # map (data_row (fixed_columns @ cols) cols) rows) \<and>
     list_all (\<lambda>r. length (data_row (fixed_columns @ cols) cols r) =
                     length (fixed_columns @ cols) \<and>
                   drop 5 (data_row (fixed_columns @ cols) cols r) =
                     map (\<lambda>p. I (case map_of (r_party_votes r) p of None \<Rightarrow> 0 | Some n \<Rightarrow> n))
                       cols) rows"
proof -
  from main_success [OF assms] obtain url out page ms rows where
    m: "parse_args argv = Inr (url, out)" "http_get w url = Response 200 page"
       "find_municipalities w page url = Inr ms" "ms \<noteq> []" "list_all2 (scraped w) ms rows"
       "files s' = (files s)(out \<mapsto> csv_rows rows (r_party_order (hd rows)))"
    by blast
  from m(5) have "length ms = length rows" by (rule list_all2_lengthD)
  with m(4) have ne: "rows \<noteq> []" by auto
  let ?cols = "r_party_order (hd rows)"
  have f: "files s' out =
      Some (map S (fixed_columns @ ?cols) # map (data_row (fixed_columns @ ?cols) ?cols) rows)"
    by (simp add: m(6) csv_rows_def)
  have a: "list_all (\<lambda>r. length (data_row (fixed_columns @ ?cols) ?cols r) =
                     length (fixed_columns @ ?cols) \<and>
                   drop 5 (data_row (fixed_columns @ ?cols) ?cols r) =
                     map (\<lambda>p. I (case map_of (r_party_votes r) p of None \<Rightarrow> 0 | Some n \<Rightarrow> n))
                       ?cols) rows"
    unfolding list_all_iff using data_row_length data_row_parties by blast
  from m(1,2,3,5) ne f a show ?thesis by blast
qed

section \<open>The district whose municipalities differ in their parties\<close>

lemma clean_number_7: "clean_number (lit ''7'') = Inr 7"
  by (simp add: number_defs)

lemma other_party_votes:
  "extract_party_votes other_municipality = Inr (map fst votes_y_z, votes_y_z)"
proof -
  have ok: "list_all vote_cell_ok (table_rows other_municipality)"
    by (simp add: other_municipality_def vote_cell_ok_def select_one_name_def find_all_td_def
        party_td_def plain_td_def clean_number_35 clean_number_7)
  have names: "party_names (table_rows other_municipality) = [lit ''Strana Y'', lit ''Strana Z'']"
    by (simp add: other_municipality_def party_names_def counted_def name_of_def
        select_one_name_def find_all_td_def party_td_def plain_td_def lit_def)
  have y: "vote_of [plain_td (lit ''1''), party_td (lit ''Strana Y''), plain_td (lit ''35'')] = 35"
    by (simp add: vote_of_def find_all_td_def party_td_def plain_td_def clean_number_35)
  have z: "vote_of [plain_td (lit ''2''), party_td (lit ''Strana Z''), plain_td (lit ''7'')] = 7"
    by (simp add: vote_of_def find_all_td_def party_td_def plain_td_def clean_number_7)
  have row_names:
    "name_of [plain_td (lit ''1''), party_td (lit ''Strana Y''), plain_td (lit ''35'')] = lit ''Strana Y''"
    "name_of [plain_td (lit ''2''), party_td (lit ''Strana Z''), plain_td (lit ''7'')] = lit ''Strana Z''"
    by (simp_all add: name_of_def select_one_name_def party_td_def plain_td_def)
  have counts:
    "counted [plain_td (lit ''1''), party_td (lit ''Strana Y''), plain_td (lit ''35'')]"
    "counted [plain_td (lit ''2''), party_td (lit ''Strana Z''), plain_td (lit ''7'')]"
    by (simp_all add: counted_def select_one_name_def find_all_td_def party_td_def plain_td_def
        lit_def)
  have differ: "lit ''Strana Y'' \<noteq> lit ''Strana Z''" by (simp add: lit_def)
  have "first_vote (table_rows other_municipality) (lit ''Strana Y'') = 35"
    by (simp add: other_municipality_def first_vote_def row_names counts y)
  moreover have "first_vote (table_rows other_municipality) (lit ''Strana Z'') = 7"
    by (simp add: other_municipality_def first_vote_def row_names counts z differ)
  ultimately have tally: "party_tally (table_rows other_municipality) = votes_y_z"
    by (simp add: party_tally_def names votes_y_z_def)
  then have "party_tally (table_rows other_municipality) \<noteq> []"
    by (simp add: votes_y_z_def)
  from extract_party_votes_tally [OF ok this] show ?thesis
    by (simp add: names tally) (simp add: votes_y_z_def)
qed

lemma other_summary: "extract_summary_numbers other_municipality = Inr (100, 80, 75)"
proof -
  have "by_headers other_municipality (lit ''sa2'') = Inr 100"
    "by_headers other_municipality (lit ''sa3'') = Inr 80"
    "by_headers other_municipality (lit ''sa6'') = Inr 75"
    by (simp_all add: by_headers_def other_municipality_def clean_number_100 clean_number_80
        clean_number_75) (simp_all add: lit_def)
  then show ?thesis by (simp add: extract_summary_numbers_def)
qed

lemma mixed_municipalities:
  "find_municipalities mixed_env demo_district district_url = Inr [alfa, beta]"
proof -
  have e: "municipality_entries mixed_env district_url (anchors demo_district) = [alfa, beta]"
    by (simp add: demo_district_def mixed_env_def page_defs digit_defs str_in_def lit_def
        sublist_Cons_right alfa_def beta_def alfa_url_def beta_url_def)
  have "deduplicated [alfa, beta] = [alfa, beta]"
    by (simp add: deduplicated_def last_with_code_def alfa_def beta_def lit_def)
  then show ?thesis
    by (simp add: find_municipalities_def e map_snd_unique Let_def)
qed

lemma mixed_scrape:
  "scrape_municipality mixed_env alfa s =
     (Inr (demo_row alfa votes_x_y), s\<lparr>requested := requested s @ [alfa_url]\<rparr>)"
  "scrape_municipality mixed_env beta s =
     (Inr (demo_row beta votes_y_z), s\<lparr>requested := requested s @ [beta_url]\<rparr>)"
  by (simp_all add: scrape_municipality_def fetch_soup_def mixed_env_def alfa_def beta_def
      urls_differ demo_summary demo_party_votes other_summary other_party_votes demo_row_def)

lemma mixed_main:
  "main mixed_env demo_argv s =
     (Inr (),
      s\<lparr>requested := requested s @ [district_url, alfa_url, beta_url],
        files := (files s)(lit ''out.csv'' \<mapsto>
          csv_rows [demo_row alfa votes_x_y, demo_row beta votes_y_z] (map fst votes_x_y))\<rparr>)"
proof -
  have f: "fetch_soup mixed_env district_url s =
      (Inr demo_district, s\<lparr>requested := requested s @ [district_url]\<rparr>)"
    by (simp add: fetch_soup_def mixed_env_def)
  have l: "scrape_loop mixed_env [alfa, beta] [] [] s1 =
     (Inr ([demo_row alfa votes_x_y, demo_row beta votes_y_z], map fst votes_x_y),
      s1\<lparr>requested := requested s1 @ [alfa_url, beta_url]\<rparr>)" for s1
    by (simp add: mixed_scrape demo_row_def votes_x_y_def)
  show ?thesis
    by (simp add: main_def parse_demo f mixed_municipalities l write_csv_def
        del: scrape_loop.simps)
       (simp add: mixed_env_def)
qed

lemma cols_apart: "set (map fst votes_x_y) \<inter> set fixed_columns = {}"
  by (simp add: fixed_columns_def votes_x_y_def lit_def)

lemma row_cells:
  "data_row (fixed_columns @ map fst votes_x_y) (map fst votes_x_y) (demo_row m votes) =
     [S (muni_code m), S (muni_name m), I 100, I 80, I 75,
      I (case map_of votes (lit ''Strana X'') of None \<Rightarrow> 0 | Some n \<Rightarrow> n),
      I (case map_of votes (lit ''Strana Y'') of None \<Rightarrow> 0 | Some n \<Rightarrow> n)]"
proof -
  let ?row = "data_row (fixed_columns @ map fst votes_x_y) (map fst votes_x_y) (demo_row m votes)"
  have "?row = take 5 ?row @ drop 5 ?row" by simp
  also have "take 5 ?row = [S (muni_code m), S (muni_name m), I 100, I 80, I 75]"
    by (simp add: data_row_fixed [OF cols_apart] demo_row_def)
  also have "drop 5 ?row =
     [I (case map_of votes (lit ''Strana X'') of None \<Rightarrow> 0 | Some n \<Rightarrow> n),
      I (case map_of votes (lit ''Strana Y'') of None \<Rightarrow> 0 | Some n \<Rightarrow> n)]"
    by (simp add: data_row_parties demo_row_def) (simp add: votes_x_y_def)
  finally show ?thesis by simp
qed

lemma mixed_file:
  "csv_rows [demo_row alfa votes_x_y, demo_row beta votes_y_z] (map fst votes_x_y) =
     [[S (lit ''code''), S (lit ''location''), S (lit ''registered''), S (lit ''envelopes''),
       S (lit ''valid''), S (lit ''Strana X''), S (lit ''Strana Y'')],
      [S (lit ''500054''), S (lit ''Alfa''), I 100, I 80, I 75, I 40, I 35],
      [S (lit ''500062''), S (lit ''Beta''), I 100, I 80, I 75, I 0, I 35]]"
  by (simp add: csv_rows_def row_cells alfa_def beta_def)
     (simp add: votes_x_y_def votes_y_z_def fixed_columns_def lit_def)

lemma demo_file:
  "csv_rows [demo_row alfa votes_x_y, demo_row beta votes_x_y] (map fst votes_x_y) =
     [[S (lit ''code''), S (lit ''location''), S (lit ''registered''), S (lit ''envelopes''),
       S (lit ''valid''), S (lit ''Strana X''), S (lit ''Strana Y'')],
      [S (lit ''500054''), S (lit ''Alfa''), I 100, I 80, I 75, I 40, I 35],
      [S (lit ''500062''), S (lit ''Beta''), I 100, I 80, I 75, I 40, I 35]]"
  by (simp add: csv_rows_def row_cells alfa_def beta_def)
     (simp add: votes_x_y_def fixed_columns_def lit_def)

theorem schema_projection_witness:
  "fst (main mixed_env demo_argv empty_state) = Inr () \<and>
   files (snd (main mixed_env demo_argv empty_state)) (lit ''out.csv'') =
     Some [[S (lit ''code''), S (lit ''location''), S (lit ''registered''), S (lit ''envelopes''),
            S (lit ''valid''), S (lit ''Strana X''), S (lit ''Strana Y'')],
           [S (lit ''500054''), S (lit ''Alfa''), I 100, I 80, I 75, I 40, I 35],
           [S (lit ''500062''), S (lit ''Beta''), I 100, I 80, I 75, I 0, I 35]] \<and>
   (\<exists>url out page ms rows cols.
     parse_args demo_argv = Inr (url, out) \<and> http_get mixed_env url = Response 200 page \<and>
     find_municipalities mixed_env page url = Inr ms \<and> list_all2 (scraped mixed_env) ms rows \<and>
     rows \<noteq> [] \<and> cols = r_party_order (hd rows) \<and>
     files (snd (main mixed_env demo_argv empty_state)) out =
       Some (map S (fixed_columns @ cols) # map (data_row (fixed_columns @ cols) cols) rows) \<and>
     list_all (\<lambda>r. length (data_row (fixed_columns @ cols) cols r) =
                     length (fixed_columns @ cols) \<and>
                   drop 5 (data_row (fixed_columns @ cols) cols r) =
                     map (\<lambda>p. I (case map_of (r_party_votes r) p of None \<Rightarrow> 0 | Some n \<Rightarrow> n))
                       cols) rows)"
proof -
  have ok: "fst (main mixed_env demo_argv empty_state) = Inr ()"
    by (simp add: mixed_main)
  then have run: "main mixed_env demo_argv empty_state =
      (Inr (), snd (main mixed_env demo_argv empty_state))"
    by (metis prod.collapse)
  have written: "files (snd (main mixed_env demo_argv empty_state)) (lit ''out.csv'') =
     Some [[S (lit ''code''), S (lit ''location''), S (lit ''registered''), S (lit ''envelopes''),
            S (lit ''valid''), S (lit ''Strana X''), S (lit ''Strana Y'')],
           [S (lit ''500054''), S (lit ''Alfa''), I 100, I 80, I 75, I 40, I 35],
           [S (lit ''500062''), S (lit ''Beta''), I 100, I 80, I 75, I 0, I 35]]"
    by (simp add: mixed_main mixed_file)
  from ok written schema_projection [OF run] show ?thesis by (intro conjI)
qed

section \<open>The header row\<close>

lemma str_of_int_values:
  "str_of_int 100 = lit ''100''" "str_of_int 80 = lit ''80''" "str_of_int 75 = lit ''75''"
  "str_of_int 40 = lit ''40''" "str_of_int 35 = lit ''35''"
  by (simp_all add: str_of_int_def digits_of.simps lit_def)

lemma demo_lines:
  "map csv_line
     [[S (lit ''code''), S (lit ''location''), S (lit ''registered''), S (lit ''envelopes''),
       S (lit ''valid''), S (lit ''Strana X''), S (lit ''Strana Y'')],
      [S (lit ''500054''), S (lit ''Alfa''), I 100, I 80, I 75, I 40, I 35],
      [S (lit ''500062''), S (lit ''Beta''), I 100, I 80, I 75, I 40, I 35]] =
   [lit ''code,location,registered,envelopes,valid,Strana X,Strana Y'',
    lit ''500054,Alfa,100,80,75,40,35'',
    lit ''500062,Beta,100,80,75,40,35'']"
  by (simp add: csv_line_def csv_field_def str_of_int_values)
     (simp add: csv_quote_def lit_def)

lemma demo_text:
  "map_option (map csv_line)
     (files (snd (main demo_env demo_argv empty_state)) (lit ''out.csv'')) =
   Some [lit ''code,location,registered,envelopes,valid,Strana X,Strana Y'',
         lit ''500054,Alfa,100,80,75,40,35'',
         lit ''500062,Beta,100,80,75,40,35'']"
proof -
  have written: "files (snd (main demo_env demo_argv empty_state)) (lit ''out.csv'') =
     Some [[S (lit ''code''), S (lit ''location''), S (lit ''registered''), S (lit ''envelopes''),
            S (lit ''valid''), S (lit ''Strana X''), S (lit ''Strana Y'')],
           [S (lit ''500054''), S (lit ''Alfa''), I 100, I 80, I 75, I 40, I 35],
           [S (lit ''500062''), S (lit ''Beta''), I 100, I 80, I 75, I 40, I 35]]"
    by (simp add: demo_main demo_file)
  show ?thesis
    unfolding written option.map demo_lines by (rule refl)
qed

text \<open>
  The claim as it stands fails in its own scenario: the run succeeds, and the first
  line of the file names the first two columns \<open>code\<close> and \<open>location\<close>, not
  \<open>identifier\<close> and \<open>name\<close>.
\<close>

theorem header_names_differ:
  "fst (main demo_env demo_argv empty_state) = Inr () \<and>
   map_option (\<lambda>rows. csv_line (hd rows))
     (files (snd (main demo_env demo_argv empty_state)) (lit ''out.csv'')) =
   Some (lit ''code,location,registered,envelopes,valid,Strana X,Strana Y'') \<and>
   map_option (\<lambda>rows. csv_line (hd rows))
     (files (snd (main demo_env demo_argv empty_state)) (lit ''out.csv'')) \<noteq>
   Some (lit ''identifier,name,registered,envelopes,valid,Strana X,Strana Y'')"
proof -
  have line: "csv_line [S (lit ''code''), S (lit ''location''), S (lit ''registered''),
      S (lit ''envelopes''), S (lit ''valid''), S (lit ''Strana X''), S (lit ''Strana Y'')] =
    lit ''code,location,registered,envelopes,valid,Strana X,Strana Y''"
    by (simp add: csv_line_def csv_field_def csv_quote_def lit_def)
  have other: "lit ''code,location,registered,envelopes,valid,Strana X,Strana Y'' \<noteq>
    lit ''identifier,name,registered,envelopes,valid,Strana X,Strana Y''"
    by (simp add: lit_def)
  have written: "files (snd (main demo_env demo_argv empty_state)) (lit ''out.csv'') =
     Some [[S (lit ''code''), S (lit ''location''), S (lit ''registered''), S (lit ''envelopes''),
            S (lit ''valid''), S (lit ''Strana X''), S (lit ''Strana Y'')],
           [S (lit ''500054''), S (lit ''Alfa''), I 100, I 80, I 75, I 40, I 35],
           [S (lit ''500062''), S (lit ''Beta''), I 100, I 80, I 75, I 40, I 35]]"
    by (simp add: demo_main demo_file)
  have ok: "fst (main demo_env demo_argv empty_state) = Inr ()"
    by (simp add: demo_main)
  show ?thesis
    unfolding written option.map list.sel line using ok other by simp
qed

text \<open>
  Claim C1, as amended. When the program succeeds, the header row of the file is
  \<open>code\<close>, \<open>location\<close>, \<open>registered\<close>, \<open>envelopes\<close>, \<open>valid\<close> and then the party
  order of the first record, and there is one row for each record. In the district with
  the municipalities 500054 Alfa and 500062 Beta the lines of the file are
  \<open>code,location,registered,envelopes,valid,Strana X,Strana Y\<close>,
  \<open>500054,Alfa,100,80,75,40,35\<close> and \<open>500062,Beta,100,80,75,40,35\<close>.
\<close>

theorem header_row:
  "(main w argv s = (Inr (), s') \<longrightarrow>
      (\<exists>url out page ms rows.
         parse_args argv = Inr (url, out) \<and> http_get w url = Response 200 page \<and>
         find_municipalities w page url = Inr ms \<and> list_all2 (scraped w) ms rows \<and>
         files s' out =
           Some (map S ([lit ''code'', lit ''location'', lit ''registered'', lit ''envelopes'',
                         lit ''valid''] @ r_party_order (hd rows))
                 # map (data_row (fixed_columns @ r_party_order (hd rows))
                          (r_party_order (hd rows))) rows))) \<and>
   fst (main demo_env demo_argv empty_state) = Inr () \<and>
   map_option (map csv_line)
     (files (snd (main demo_env demo_argv empty_state)) (lit ''out.csv'')) =
   Some [lit ''code,location,registered,envelopes,valid,Strana X,Strana Y'',
         lit ''500054,Alfa,100,80,75,40,35'',
         lit ''500062,Beta,100,80,75,40,35'']"
proof (intro conjI impI)
  assume run: "main w argv s = (Inr (), s')"
  from main_success [OF run] obtain url out page ms rows where
    m: "parse_args argv = Inr (url, out)" "http_get w url = Response 200 page"
       "find_municipalities w page url = Inr ms" "list_all2 (scraped w) ms rows"
       "files s' = (files s)(out \<mapsto> csv_rows rows (r_party_order (hd rows)))"
    by blast
  have "files s' out =
      Some (map S ([lit ''code'', lit ''location'', lit ''registered'', lit ''envelopes'',
                    lit ''valid''] @ r_party_order (hd rows))
            # map (data_row (fixed_columns @ r_party_order (hd rows))
                     (r_party_order (hd rows))) rows)"
    by (simp add: m(5) csv_rows_def) (simp add: fixed_columns_def)
  with m(1-4) show "\<exists>url out page ms rows.
         parse_args argv = Inr (url, out) \<and> http_get w url = Response 200 page \<and>
         find_municipalities w page url = Inr ms \<and> list_all2 (scraped w) ms rows \<and>
         files s' out =
           Some (map S ([lit ''code'', lit ''location'', lit ''registered'', lit ''envelopes'',
                         lit ''valid''] @ r_party_order (hd rows))
                 # map (data_row (fixed_columns @ r_party_order (hd rows))
                          (r_party_order (hd rows))) rows)"
    by blast
next
  show "fst (main demo_env demo_argv empty_state) = Inr ()"
    by (simp add: demo_main)
next
  show "map_option (map csv_line)
     (files (snd (main demo_env demo_argv empty_state)) (lit ''out.csv'')) =
   Some [lit ''code,location,registered,envelopes,valid,Strana X,Strana Y'',
         lit ''500054,Alfa,100,80,75,40,35'',
         lit ''500062,Beta,100,80,75,40,35'']"
    by (rule demo_text)
qed

theorem header_row_witness:
  "fst (main demo_env demo_argv empty_state) = Inr () \<and>
   (\<exists>url out page ms rows.
      parse_args demo_argv = Inr (url, out) \<and> http_get demo_env url = Response 200 page \<and>
      find_municipalities demo_env page url = Inr ms \<and> list_all2 (scraped demo_env) ms rows \<and>
      files (snd (main demo_env demo_argv empty_state)) out =
        Some (map S ([lit ''code'', lit ''location'', lit ''registered'', lit ''envelopes'',
                      lit ''valid''] @ r_party_order (hd rows))
              # map (data_row (fixed_columns @ r_party_order (hd rows))
                       (r_party_order (hd rows))) rows))"
proof -
  have ok: "fst (main demo_env demo_argv empty_state) = Inr ()"
    by (simp add: demo_main)
  then have run: "main demo_env demo_argv empty_state =
      (Inr (), snd (main demo_env demo_argv empty_state))"
    by (metis prod.collapse)
  from header_row [of demo_env demo_argv empty_state "snd (main demo_env demo_argv empty_state)"]
    run ok show ?thesis by blast
qed

end
